theory Spec2Isabelle
  imports Complex_Main "HOL-Library.AList"
begin

section \<open>Data model\<close>

text \<open>
  The recipe dataset is the parsed JSON object \<^verbatim>\<open>factorioData\<close>. A JavaScript object
  whose keys are not integer-like is iterated in insertion order, so \<^verbatim>\<open>factorioData.recipes\<close>
  is the list of its recipes in that order, each carrying its own key (the shape that
  \<^verbatim>\<open>findRecipeForItem\<close> returns, \<^verbatim>\<open>{key: recipeKey, ...recipe}\<close>). JavaScript numbers are
  modelled as exact rationals: there is no NaN, no infinity and no binary rounding error.
  An absent \<^verbatim>\<open>results\<close> array is the empty list.
\<close>

record ingredient =
  ing_name :: string
  ing_amount :: rat

record result =
  res_name :: string
  res_amount :: "rat option"

record recipe =
  key :: string
  category :: string
  energy_required :: "rat option"
  ingredients :: "ingredient list"
  results :: "result list"

record item_meta =
  item_group :: "string option"
  item_subgroup :: "string option"

record factorioData =
  recipes :: "recipe list"
  items :: "string \<Rightarrow> item_meta option"

text \<open>
  A caught exception (answered with status 500), the 404 answer of the handlers when the
  target item has no recipe, and their 400 answer to a missing parameter.
\<close>

datatype error = BadRequest | NotFound | TypeError

text \<open>\<^verbatim>\<open>x || d\<close> on an optional number: the default replaces an absent value and zero.\<close>

definition or_default :: "rat option \<Rightarrow> rat \<Rightarrow> rat" where
  "or_default x d = (case x of None \<Rightarrow> d | Some v \<Rightarrow> if v = 0 then d else v)"

text \<open>\<^verbatim>\<open>Math.round(x * 100) / 100\<close> (halves go up) and \<^verbatim>\<open>Math.ceil(x * 100) / 100\<close>.\<close>

definition round2 :: "rat \<Rightarrow> rat" where
  "round2 x = of_int \<lfloor>x * 100 + 1 / 2\<rfloor> / 100"

definition ceil2 :: "rat \<Rightarrow> rat" where
  "ceil2 x = of_int \<lceil>x * 100\<rceil> / 100"

text \<open>\<^verbatim>\<open>forEach\<close> with a body that may throw: the first exception ends the loop.\<close>

fun forEachE :: "('a \<Rightarrow> 's \<Rightarrow> error + 's) \<Rightarrow> 'a list \<Rightarrow> 's \<Rightarrow> error + 's" where
  "forEachE f [] s = Inr s"
| "forEachE f (x # xs) s = (case f x s of Inl e \<Rightarrow> Inl e | Inr s' \<Rightarrow> forEachE f xs s')"

lemma forEachE_cong [fundef_cong]:
  "xs = ys \<Longrightarrow> s = t \<Longrightarrow> (\<And>x s'. x \<in> set ys \<Longrightarrow> f x s' = g x s')
    \<Longrightarrow> forEachE f xs s = forEachE g ys t"
  by (induction ys arbitrary: xs s t) (auto split: sum.splits)

section \<open>The calculator\<close>

subsection \<open>findRecipeForItem\<close>

definition findRecipeForItem :: "factorioData \<Rightarrow> string \<Rightarrow> recipe option" where
  "findRecipeForItem fd itemName =
     find (\<lambda>recipe. list_ex (\<lambda>result. res_name result = itemName) (results recipe))
       (recipes fd)"

lemma findRecipeForItem_key:
  "findRecipeForItem fd n = Some r \<Longrightarrow> key r \<in> key ` set (recipes fd)"
  by (auto simp: findRecipeForItem_def find_Some_iff)

lemma findRecipeForItem_results:
  "findRecipeForItem fd n = Some r \<Longrightarrow> results r \<noteq> []"
  by (auto simp: findRecipeForItem_def find_Some_iff list_ex_iff)

subsection \<open>calculateFullRequirements\<close>

text \<open>
  The \<^verbatim>\<open>requirements\<close> object, in insertion order.
  \<^verbatim>\<open>requirements[k] = (requirements[k] || 0) + v\<close> keeps the position of an existing key
  and appends a new one.
\<close>

type_synonym requirements = "(string \<times> rat) list"

definition add_requirement :: "requirements \<Rightarrow> string \<Rightarrow> rat \<Rightarrow> requirements" where
  "add_requirement requirements k v =
     AList.update k (or_default (map_of requirements k) 0 + v) requirements"

text \<open>
  The termination measure: the recipe keys of the dataset that the path has not seen, and
  whether the recipe at hand is one of them.
\<close>

definition unseen :: "factorioData \<Rightarrow> recipe \<Rightarrow> string set \<Rightarrow> nat" where
  "unseen fd r seen = 2 * card (key ` set (recipes fd) - seen) +
     (if key r \<in> seen then 0 else if key r \<in> key ` set (recipes fd) then 1 else 2)"

lemma unseen_less:
  assumes "key r \<notin> seen" and "key r' \<in> key ` set (recipes fd)"
  shows "unseen fd r' (insert (key r) seen) < unseen fd r seen"
proof (cases "key r \<in> key ` set (recipes fd)")
  case True
  then have "card (key ` set (recipes fd) - insert (key r) seen)
      < card (key ` set (recipes fd) - seen)"
    using assms(1) by (intro psubset_card_mono) auto
  then show ?thesis
    using True assms by (simp add: unseen_def)
next
  case False
  then have "key ` set (recipes fd) - insert (key r) seen = key ` set (recipes fd) - seen"
    by auto
  then show ?thesis
    using False assms by (simp add: unseen_def)
qed

text \<open>
  The JavaScript function mutates \<^verbatim>\<open>requirements\<close>; the model returns the new object.
  \<^verbatim>\<open>seen\<close> is mutated by \<^verbatim>\<open>seen.add\<close> and every recursive call receives a copy of it,
  \<^verbatim>\<open>new Set(seen)\<close>. Reading \<^verbatim>\<open>recipe.results[0].amount\<close> throws when there is no result.
\<close>

function calculateFullRequirements ::
  "factorioData \<Rightarrow> recipe \<Rightarrow> rat \<Rightarrow> requirements \<Rightarrow> string set \<Rightarrow> error + requirements" where
  "calculateFullRequirements fd recipe targetRate requirements seen =
     (case results recipe of
        [] \<Rightarrow> Inl TypeError
      | result0 # _ \<Rightarrow>
          let outputAmount = or_default (res_amount result0) 1;
              recipeKey = key recipe
          in if recipeKey \<in> seen then Inr requirements
             else forEachE (\<lambda>ingredient requirements.
                    let ingredientName = ing_name ingredient;
                        amountNeeded = (ing_amount ingredient * targetRate) / outputAmount;
                        requirements' = add_requirement requirements ingredientName amountNeeded
                    in case findRecipeForItem fd ingredientName of
                         None \<Rightarrow> Inr requirements'
                       | Some ingredientRecipe \<Rightarrow>
                           calculateFullRequirements fd ingredientRecipe amountNeeded
                             requirements' (insert recipeKey seen))
                  (ingredients recipe) requirements)"
  by pat_completeness auto
termination
  by (relation "measure (\<lambda>(fd, r, _, _, seen). unseen fd r seen)")
     (auto intro!: unseen_less dest: findRecipeForItem_key)

declare calculateFullRequirements.simps [simp del]

subsection \<open>calculateRequirements\<close>

record ingredient_info =
  ii_name :: string
  ii_amountPerSecond :: rat
  ii_recipe :: "string option"

record requirement =
  rq_name :: string
  rq_rate :: rat

record requirements_result =
  rr_item :: string
  rr_targetRate :: rat
  rr_machinesNeeded :: rat
  rr_ingredients :: "ingredient_info list"
  rr_craftingTime :: rat
  rr_recipe :: string
  rr_fullRequirements :: "requirement list"

text \<open>
  \<^verbatim>\<open>Array.prototype.sort\<close> is stable; the comparator \<^verbatim>\<open>(a, b) => b.rate - a.rate\<close> orders by
  descending rate.
\<close>

definition sort_by_rate_desc :: "requirement list \<Rightarrow> requirement list" where
  "sort_by_rate_desc xs = sort_key (\<lambda>e. - rq_rate e) xs"

definition calculateRequirements ::
  "factorioData \<Rightarrow> recipe \<Rightarrow> rat \<Rightarrow> error + requirements_result" where
  "calculateRequirements fd recipe targetRate =
     (let craftingTime = or_default (energy_required recipe) (1 / 2) in
      case results recipe of
        [] \<Rightarrow> Inl TypeError
      | result0 # _ \<Rightarrow>
          let outputItem = res_name result0;
              outputAmount = or_default (res_amount result0) 1;
              craftingSpeed = 5 / 4;
              machinesNeeded = (targetRate * craftingTime) / (outputAmount * craftingSpeed);
              ingredientInfos = map (\<lambda>ingredient.
                  let amountPerSecond = (ing_amount ingredient * targetRate) / outputAmount;
                      ingredientRecipe = findRecipeForItem fd (ing_name ingredient)
                  in \<lparr>ii_name = ing_name ingredient,
                      ii_amountPerSecond = amountPerSecond,
                      ii_recipe = map_option key ingredientRecipe\<rparr>)
                (ingredients recipe)
          in (case calculateFullRequirements fd recipe targetRate [] {} of
               Inl e \<Rightarrow> Inl e
             | Inr fullRequirements \<Rightarrow>
                 Inr \<lparr>rr_item = outputItem,
                      rr_targetRate = targetRate,
                      rr_machinesNeeded = ceil2 machinesNeeded,
                      rr_ingredients = ingredientInfos,
                      rr_craftingTime = craftingTime,
                      rr_recipe = key recipe,
                      rr_fullRequirements = sort_by_rate_desc
                        (map (\<lambda>(name, rate). \<lparr>rq_name = name, rq_rate = round2 rate\<rparr>)
                           fullRequirements)\<rparr>))"

section \<open>View builders\<close>

subsection \<open>generateRecipeTree\<close>

text \<open>
  The root object \<^verbatim>\<open>{item, recipe, rate, machines, time, children}\<close> and the child objects
  pushed into \<^verbatim>\<open>children\<close>: \<^verbatim>\<open>{item, rate}\<close> extended either with the fields of the subtree
  (\<^verbatim>\<open>recipe\<close>, \<^verbatim>\<open>machines\<close>, \<^verbatim>\<open>time\<close>, \<^verbatim>\<open>children\<close>) or with \<^verbatim>\<open>type: 'raw'\<close>.
\<close>

datatype tree_child =
    RecipeChild (tc_item: string) (tc_rate: rat) (tc_recipe: string) (tc_machines: rat)
      (tc_time: rat) (tc_children: "tree_child list")
  | RawChild (tc_item: string) (tc_rate: rat)

record recipe_tree =
  tr_item :: string
  tr_recipe :: string
  tr_rate :: rat
  tr_machines :: rat
  tr_time :: rat
  tr_children :: "tree_child list"

text \<open>\<^verbatim>\<open>forEach\<close> with a body that pushes one element, or throws.\<close>

fun mapE :: "('a \<Rightarrow> error + 'b) \<Rightarrow> 'a list \<Rightarrow> error + 'b list" where
  "mapE f [] = Inr []"
| "mapE f (x # xs) =
     (case f x of
        Inl e \<Rightarrow> Inl e
      | Inr y \<Rightarrow> (case mapE f xs of Inl e \<Rightarrow> Inl e | Inr ys \<Rightarrow> Inr (y # ys)))"

lemma mapE_cong [fundef_cong]:
  "xs = ys \<Longrightarrow> (\<And>x. x \<in> set ys \<Longrightarrow> f x = g x) \<Longrightarrow> mapE f xs = mapE g ys"
  by (induction ys arbitrary: xs) (auto split: sum.splits)

function generateRecipeTree ::
  "factorioData \<Rightarrow> recipe \<Rightarrow> rat \<Rightarrow> int \<Rightarrow> error + recipe_tree" where
  "generateRecipeTree fd recipe targetRate depth =
     (case results recipe of
        [] \<Rightarrow> Inl TypeError
      | result0 # _ \<Rightarrow>
          let outputItem = res_name result0;
              outputAmount = or_default (res_amount result0) 1;
              craftingTime = or_default (energy_required recipe) (1 / 2);
              craftingSpeed = 5 / 4;
              machinesNeeded = (targetRate * craftingTime) / (outputAmount * craftingSpeed);
              result = \<lparr>tr_item = outputItem,
                        tr_recipe = key recipe,
                        tr_rate = targetRate,
                        tr_machines = ceil2 machinesNeeded,
                        tr_time = craftingTime,
                        tr_children = []\<rparr>
          in if depth \<le> 0 then Inr result
             else
               (case mapE (\<lambda>ingredient.
                       let ingredientName = ing_name ingredient;
                           ingredientRate = (ing_amount ingredient * targetRate) / outputAmount
                       in case findRecipeForItem fd ingredientName of
                            Some ingredientRecipe \<Rightarrow>
                              (case generateRecipeTree fd ingredientRecipe ingredientRate
                                      (depth - 1) of
                                 Inl e \<Rightarrow> Inl e
                               | Inr subTree \<Rightarrow>
                                   Inr (RecipeChild ingredientName (round2 ingredientRate)
                                          (tr_recipe subTree) (tr_machines subTree)
                                          (tr_time subTree) (tr_children subTree)))
                          | None \<Rightarrow> Inr (RawChild ingredientName (round2 ingredientRate)))
                     (ingredients recipe) of
                  Inl e \<Rightarrow> Inl e
                | Inr children \<Rightarrow> Inr (result\<lparr>tr_children := children\<rparr>)))"
  by pat_completeness auto
termination
  by (relation "measure (\<lambda>(fd, r, rate, depth). nat depth)") auto

declare generateRecipeTree.simps [simp del]

text \<open>The number of recipe levels of a tree, and whether a recipe occurs below itself.\<close>

fun child_levels :: "tree_child \<Rightarrow> nat" where
  "child_levels (RawChild _ _) = 0"
| "child_levels (RecipeChild _ _ _ _ _ children) = Suc (fold max (map child_levels children) 0)"

definition tree_levels :: "recipe_tree \<Rightarrow> nat" where
  "tree_levels t = Suc (fold max (map child_levels (tr_children t)) 0)"

fun path_repeats :: "string list \<Rightarrow> tree_child \<Rightarrow> bool" where
  "path_repeats path (RawChild _ _) = False"
| "path_repeats path (RecipeChild _ _ recipeKey _ _ children) =
     (recipeKey \<in> set path \<or> list_ex (path_repeats (recipeKey # path)) children)"

definition tree_repeats :: "recipe_tree \<Rightarrow> bool" where
  "tree_repeats t = list_ex (path_repeats [tr_recipe t]) (tr_children t)"

subsection \<open>generateRecipeTable\<close>

record table_ingredient =
  ti_name :: string
  ti_rate :: rat

record recipe_entry =
  re_name :: string
  re_time :: rat
  re_machines :: rat
  re_outputRate :: rat
  re_produces :: string
  re_ingredients :: "table_ingredient list"

record item_entry =
  ie_name :: string
  ie_producedBy :: "string option"
  ie_producedRate :: rat
  ie_consumedBy :: "(string \<times> rat) list"
  ie_consumedRate :: rat

text \<open>The object \<^verbatim>\<open>table\<close> while it is built: three objects, in insertion order.\<close>

record table =
  t_recipes :: "(string \<times> recipe_entry) list"
  t_items :: "(string \<times> item_entry) list"
  t_rawMaterials :: "(string \<times> rat) list"


text \<open>
  The commented blocks of \<^verbatim>\<open>processRecipe\<close>, one definition each. ``Add to recipe table'':
  a first visit creates the entry, a later one adds to its machines and output rate.
\<close>

definition add_recipe_entry ::
  "string \<Rightarrow> rat \<Rightarrow> rat \<Rightarrow> rat \<Rightarrow> string \<Rightarrow> table \<Rightarrow> table" where
  "add_recipe_entry recipeKey craftingTime machinesNeeded rate outputItem table =
     (case map_of (t_recipes table) recipeKey of
        None \<Rightarrow>
          table\<lparr>t_recipes := AList.update recipeKey
            \<lparr>re_name = recipeKey,
             re_time = craftingTime,
             re_machines = ceil2 machinesNeeded,
             re_outputRate = rate,
             re_produces = outputItem,
             re_ingredients = []\<rparr> (t_recipes table)\<rparr>
      | Some entry \<Rightarrow>
          table\<lparr>t_recipes := AList.update recipeKey
            (entry\<lparr>re_machines := ceil2 (re_machines entry + machinesNeeded),
                   re_outputRate := re_outputRate entry + rate\<rparr>)
            (t_recipes table)\<rparr>)"

text \<open>``Add to items table''.\<close>

definition add_item_entry :: "string \<Rightarrow> string \<Rightarrow> rat \<Rightarrow> table \<Rightarrow> table" where
  "add_item_entry outputItem recipeKey rate table =
     (case map_of (t_items table) outputItem of
        None \<Rightarrow>
          table\<lparr>t_items := AList.update outputItem
            \<lparr>ie_name = outputItem,
             ie_producedBy = Some recipeKey,
             ie_producedRate = rate,
             ie_consumedBy = [],
             ie_consumedRate = 0\<rparr> (t_items table)\<rparr>
      | Some entry \<Rightarrow>
          table\<lparr>t_items := AList.update outputItem
            (entry\<lparr>ie_producedRate := ie_producedRate entry + rate\<rparr>)
            (t_items table)\<rparr>)"


text \<open>``Update item consumption''.\<close>

definition update_consumption :: "string \<Rightarrow> string \<Rightarrow> rat \<Rightarrow> table \<Rightarrow> table" where
  "update_consumption ingredientName recipeKey ingredientRate table =
     (case map_of (t_items table) ingredientName of
        None \<Rightarrow>
          table\<lparr>t_items := AList.update ingredientName
            \<lparr>ie_name = ingredientName,
             ie_producedBy = None,
             ie_producedRate = 0,
             ie_consumedBy = [(recipeKey, round2 ingredientRate)],
             ie_consumedRate = ingredientRate\<rparr> (t_items table)\<rparr>
      | Some item \<Rightarrow>
          table\<lparr>t_items := AList.update ingredientName
            (item\<lparr>ie_consumedBy := AList.update recipeKey
                     (or_default (map_of (ie_consumedBy item) recipeKey) 0
                        + round2 ingredientRate)
                     (ie_consumedBy item),
                   ie_consumedRate := ie_consumedRate item + ingredientRate\<rparr>)
            (t_items table)\<rparr>)"

text \<open>
  ``Add to raw materials'': \<^verbatim>\<open>!table.rawMaterials[name]\<close> holds for an absent total and
  for a total of zero.
\<close>

definition add_raw_material :: "string \<Rightarrow> rat \<Rightarrow> table \<Rightarrow> table" where
  "add_raw_material ingredientName ingredientRate table =
     (case map_of (t_rawMaterials table) ingredientName of
        None \<Rightarrow>
          table\<lparr>t_rawMaterials := AList.update ingredientName
            (round2 ingredientRate) (t_rawMaterials table)\<rparr>
      | Some v \<Rightarrow>
          if v = 0
          then table\<lparr>t_rawMaterials := AList.update ingredientName
                 (round2 ingredientRate) (t_rawMaterials table)\<rparr>
          else table\<lparr>t_rawMaterials := AList.update ingredientName
                 (v + round2 ingredientRate) (t_rawMaterials table)\<rparr>)"





subsection \<open>generateSankeyData\<close>

datatype node_type = TRecipe | TItem | TRaw

record sankey_node =
  sn_name :: string
  sn_id :: nat
  sn_type :: node_type

record sankey_link =
  sl_source :: nat
  sl_target :: nat
  sl_value :: rat

text \<open>The three local variables of \<^verbatim>\<open>generateSankeyData\<close> that its helpers mutate.\<close>

record sankey_state =
  sk_nodes :: "sankey_node list"
  sk_links :: "sankey_link list"
  sk_nodeMap :: "string \<Rightarrow> nat option"

record sankey_data =
  sd_nodes :: "sankey_node list"
  sd_links :: "sankey_link list"

definition sk_addNode :: "string \<Rightarrow> node_type \<Rightarrow> sankey_state \<Rightarrow> nat \<times> sankey_state" where
  "sk_addNode name type s =
     (case sk_nodeMap s name of
        None \<Rightarrow>
          let index = length (sk_nodes s)
          in (index, s\<lparr>sk_nodes := sk_nodes s @ [\<lparr>sn_name = name, sn_id = index, sn_type = type\<rparr>],
                       sk_nodeMap := (sk_nodeMap s)(name \<mapsto> index)\<rparr>)
      | Some index \<Rightarrow> (index, s))"

definition sk_addLink :: "nat \<Rightarrow> nat \<Rightarrow> rat \<Rightarrow> sankey_state \<Rightarrow> sankey_state" where
  "sk_addLink source target value s =
     s\<lparr>sk_links := sk_links s @
        [\<lparr>sl_source = source, sl_target = target, sl_value = max (1 / 100) value\<rparr>]\<rparr>"

text \<open>
  \<^verbatim>\<open>nodes[ingredientNodeId].type = 'raw'\<close> throws when the index is outside the array.
\<close>

definition sk_markRaw :: "nat \<Rightarrow> sankey_state \<Rightarrow> error + sankey_state" where
  "sk_markRaw index s =
     (if index < length (sk_nodes s)
      then Inr (s\<lparr>sk_nodes := (sk_nodes s)[index := (sk_nodes s ! index)\<lparr>sn_type := TRaw\<rparr>]\<rparr>)
      else Inl TypeError)"

function buildSankeyData ::
  "factorioData \<Rightarrow> int \<Rightarrow> recipe \<Rightarrow> rat \<Rightarrow> int \<Rightarrow> string set \<Rightarrow> sankey_state
    \<Rightarrow> error + sankey_state" where
  "buildSankeyData fd depth recipe rate currentDepth visited s =
     (if currentDepth > depth then Inr s
      else
        case results recipe of
          [] \<Rightarrow> Inl TypeError
        | result0 # _ \<Rightarrow>
            let recipeKey = key recipe;
                recipeName = ''Recipe: '' @ key recipe;
                outputItem = res_name result0;
                outputAmount = or_default (res_amount result0) 1
            in if recipeKey \<in> visited then Inr s
               else
                 let (recipeNodeId, s1) = sk_addNode recipeName TRecipe s;
                     (outputNodeId, s2) = sk_addNode outputItem TItem s1;
                     s3 = sk_addLink recipeNodeId outputNodeId rate s2
                 in forEachE (\<lambda>ingredient s.
                        let ingredientName = ing_name ingredient;
                            ingredientRate = (ing_amount ingredient * rate) / outputAmount;
                            (ingredientNodeId, s4) = sk_addNode ingredientName TItem s;
                            s5 = sk_addLink ingredientNodeId recipeNodeId ingredientRate s4
                        in if currentDepth < depth
                           then (case findRecipeForItem fd ingredientName of
                                   Some ingredientRecipe \<Rightarrow>
                                     buildSankeyData fd depth ingredientRecipe ingredientRate
                                       (currentDepth + 1) (insert recipeKey visited) s5
                                 | None \<Rightarrow> sk_markRaw ingredientNodeId s5)
                           else Inr s5)
                      (ingredients recipe) s3)"
  by pat_completeness auto
termination
  by (relation "measure (\<lambda>(fd, depth, r, rate, currentDepth, visited, s).
        nat (depth - currentDepth))") auto

declare buildSankeyData.simps [simp del]

text \<open>
  The callback of \<^verbatim>\<open>recipe.ingredients.forEach\<close> in \<^verbatim>\<open>buildSankeyData\<close>, by itself: what
  one ingredient does to the nodes and links, given the depth of the recipe that consumes
  it, the set of that recipe's path, its rate, its output amount and its node.
\<close>

definition sankey_ingredient ::
  "factorioData \<Rightarrow> int \<Rightarrow> int \<Rightarrow> string set \<Rightarrow> rat \<Rightarrow> rat \<Rightarrow> nat \<Rightarrow> ingredient
    \<Rightarrow> sankey_state \<Rightarrow> error + sankey_state" where
  "sankey_ingredient fd depth currentDepth visited rate outputAmount recipeNodeId ingredient s =
     (let ingredientName = ing_name ingredient;
          ingredientRate = (ing_amount ingredient * rate) / outputAmount;
          (ingredientNodeId, s4) = sk_addNode ingredientName TItem s;
          s5 = sk_addLink ingredientNodeId recipeNodeId ingredientRate s4
      in if currentDepth < depth
         then (case findRecipeForItem fd ingredientName of
                 Some ingredientRecipe \<Rightarrow>
                   buildSankeyData fd depth ingredientRecipe ingredientRate
                     (currentDepth + 1) visited s5
               | None \<Rightarrow> sk_markRaw ingredientNodeId s5)
         else Inr s5)"

text \<open>
  The type that the nodes give to a name, and the states in which \<^verbatim>\<open>nodeMap\<close> maps the name
  of every node to its index, as it does whenever \<^verbatim>\<open>addNode\<close> alone adds nodes.
\<close>

definition sk_type :: "sankey_state \<Rightarrow> string \<Rightarrow> node_type option" where
  "sk_type s name = map_option (\<lambda>index. sn_type (sk_nodes s ! index)) (sk_nodeMap s name)"

definition sankey_ok :: "sankey_state \<Rightarrow> bool" where
  "sankey_ok s \<longleftrightarrow>
     (\<forall>name index. sk_nodeMap s name = Some index
        \<longleftrightarrow> index < length (sk_nodes s) \<and> sn_name (sk_nodes s ! index) = name)"

definition sankey_empty :: sankey_state where
  "sankey_empty = \<lparr>sk_nodes = [], sk_links = [], sk_nodeMap = Map.empty\<rparr>"

definition generateSankeyData ::
  "factorioData \<Rightarrow> recipe \<Rightarrow> rat \<Rightarrow> int \<Rightarrow> error + sankey_data" where
  "generateSankeyData fd recipe targetRate depth =
     (case buildSankeyData fd depth recipe targetRate 0 {} sankey_empty of
        Inl e \<Rightarrow> Inl e
      | Inr s \<Rightarrow> Inr \<lparr>sd_nodes = sk_nodes s, sd_links = sk_links s\<rparr>)"

subsection \<open>The request handlers\<close>








section \<open>The knowledge graph\<close>

datatype relationship = Produces | ConsumedBy

fun relationship_name :: "relationship \<Rightarrow> string" where
  "relationship_name Produces = ''produces''"
| "relationship_name ConsumedBy = ''consumedBy''"

text \<open>
  A node object: \<^verbatim>\<open>{id, type, name, ...properties}\<close>, where the properties are the category
  and the time of a recipe or the group and the subgroup of an item, and in a subgraph its
  \<^verbatim>\<open>index\<close>, which the returned nodes have set to \<^verbatim>\<open>undefined\<close>.
\<close>

record node_properties =
  np_category :: "string option"
  np_time :: "rat option"
  np_group :: "string option"
  np_subgroup :: "string option"

record graph_node =
  gn_id :: string
  gn_type :: node_type
  gn_name :: string
  gn_properties :: node_properties
  gn_index :: "nat option"

record index_link =
  il_source :: nat
  il_target :: nat
  il_relationship :: relationship
  il_amount :: rat

record graph_link =
  gl_source :: string
  gl_target :: string
  gl_relationship :: relationship
  gl_amount :: rat

record graph_state =
  g_nodes :: "graph_node list"
  g_links :: "index_link list"
  g_nodeMap :: "string \<Rightarrow> nat option"

record graph =
  gr_nodes :: "graph_node list"
  gr_links :: "graph_link list"

text \<open>The node ids \<^verbatim>\<open>`item:${name}`\<close> and \<^verbatim>\<open>`recipe:${recipeKey}`\<close>.\<close>

definition item_id :: "string \<Rightarrow> string" where
  "item_id name = ''item:'' @ name"

definition recipe_id :: "string \<Rightarrow> string" where
  "recipe_id recipeKey = ''recipe:'' @ recipeKey"

definition recipe_properties :: "recipe \<Rightarrow> node_properties" where
  "recipe_properties recipe =
     \<lparr>np_category = Some (category recipe),
      np_time = Some (or_default (energy_required recipe) (1 / 2)),
      np_group = None, np_subgroup = None\<rparr>"

text \<open>\<^verbatim>\<open>factorioData.items[name] || {}\<close>, read for the group and the subgroup.\<close>

definition item_properties :: "factorioData \<Rightarrow> string \<Rightarrow> node_properties" where
  "item_properties fd name =
     (case items fd name of
        None \<Rightarrow> \<lparr>np_category = None, np_time = None, np_group = None, np_subgroup = None\<rparr>
      | Some itemProperties \<Rightarrow>
          \<lparr>np_category = None, np_time = None,
           np_group = item_group itemProperties,
           np_subgroup = item_subgroup itemProperties\<rparr>)"

definition no_properties :: node_properties where
  "no_properties = \<lparr>np_category = None, np_time = None, np_group = None, np_subgroup = None\<rparr>"

text \<open>
  \<^verbatim>\<open>nodes[link.source].id\<close> and \<^verbatim>\<open>nodes[link.target].id\<close> throw when an index is outside the
  array.
\<close>

definition resolve_link :: "graph_node list \<Rightarrow> rat \<Rightarrow> index_link \<Rightarrow> error + graph_link" where
  "resolve_link nodes amount link =
     (if il_source link < length nodes \<and> il_target link < length nodes
      then Inr \<lparr>gl_source = gn_id (nodes ! il_source link),
                gl_target = gn_id (nodes ! il_target link),
                gl_relationship = il_relationship link,
                gl_amount = amount\<rparr>
      else Inl TypeError)"

subsection \<open>generateCompleteGraph\<close>

definition cg_addNode ::
  "string \<Rightarrow> node_type \<Rightarrow> string \<Rightarrow> node_properties \<Rightarrow> graph_state \<Rightarrow> graph_state" where
  "cg_addNode nodeId type name properties s =
     (case g_nodeMap s nodeId of
        None \<Rightarrow>
          let index = length (g_nodes s)
          in s\<lparr>g_nodes := g_nodes s @
                 [\<lparr>gn_id = nodeId, gn_type = type, gn_name = (if name = [] then nodeId else name),
                   gn_properties = properties, gn_index = None\<rparr>],
               g_nodeMap := (g_nodeMap s)(nodeId \<mapsto> index)\<rparr>
      | Some _ \<Rightarrow> s)"

definition cg_addLink ::
  "string \<Rightarrow> string \<Rightarrow> relationship \<Rightarrow> rat \<Rightarrow> graph_state \<Rightarrow> graph_state" where
  "cg_addLink source target relationship amount s =
     (case (g_nodeMap s source, g_nodeMap s target) of
        (Some sourceIndex, Some targetIndex) \<Rightarrow>
          s\<lparr>g_links := g_links s @
              [\<lparr>il_source = sourceIndex, il_target = targetIndex,
                il_relationship = relationship, il_amount = amount\<rparr>]\<rparr>
      | _ \<Rightarrow> s)"

definition cg_recipe :: "recipe \<Rightarrow> graph_state \<Rightarrow> graph_state" where
  "cg_recipe recipe s =
     (let recipeKey = key recipe;
          recipeId = recipe_id recipeKey;
          s1 = cg_addNode recipeId TRecipe recipeKey (recipe_properties recipe) s;
          s2 = fold (\<lambda>result s.
                 let itemId = item_id (res_name result);
                     s' = cg_addNode itemId TItem (res_name result) no_properties s
                 in cg_addLink recipeId itemId Produces (or_default (res_amount result) 1) s')
               (results recipe) s1
      in fold (\<lambda>ingredient s.
            let itemId = item_id (ing_name ingredient);
                s' = cg_addNode itemId TItem (ing_name ingredient) no_properties s
            in cg_addLink itemId recipeId ConsumedBy (ing_amount ingredient) s')
          (ingredients recipe) s2)"

definition generateCompleteGraph :: "factorioData \<Rightarrow> error + graph" where
  "generateCompleteGraph fd =
     (let s = fold cg_recipe (recipes fd) \<lparr>g_nodes = [], g_links = [], g_nodeMap = Map.empty\<rparr>
      in case mapE (\<lambda>link. resolve_link (g_nodes s) (il_amount link) link) (g_links s) of
           Inl e \<Rightarrow> Inl e
         | Inr links \<Rightarrow>
             Inr \<lparr>gr_nodes = map (\<lambda>node. node\<lparr>gn_index := None\<rparr>) (g_nodes s),
                  gr_links = links\<rparr>)"

subsection \<open>generateItemSubgraph\<close>

definition sg_addNode ::
  "string \<Rightarrow> node_type \<Rightarrow> string \<Rightarrow> node_properties \<Rightarrow> graph_state \<Rightarrow> graph_state" where
  "sg_addNode nodeId type name properties s =
     (case g_nodeMap s nodeId of
        None \<Rightarrow>
          let index = length (g_nodes s)
          in s\<lparr>g_nodes := g_nodes s @
                 [\<lparr>gn_id = nodeId, gn_type = type, gn_name = (if name = [] then nodeId else name),
                   gn_properties = properties, gn_index = Some index\<rparr>],
               g_nodeMap := (g_nodeMap s)(nodeId \<mapsto> index)\<rparr>
      | Some _ \<Rightarrow> s)"

definition sg_addLink ::
  "string \<Rightarrow> string \<Rightarrow> relationship \<Rightarrow> rat \<Rightarrow> graph_state \<Rightarrow> graph_state" where
  "sg_addLink source target relationship amount s =
     (case (g_nodeMap s source, g_nodeMap s target) of
        (Some sourceIndex, Some targetIndex) \<Rightarrow>
          let exists = list_ex (\<lambda>link. il_source link = sourceIndex
                                  \<and> il_target link = targetIndex
                                  \<and> il_relationship link = relationship) (g_links s)
          in if \<not> exists
             then s\<lparr>g_links := g_links s @
                    [\<lparr>il_source = sourceIndex, il_target = targetIndex,
                      il_relationship = relationship, il_amount = amount\<rparr>]\<rparr>
             else s
      | _ \<Rightarrow> s)"

text \<open>
  \<^verbatim>\<open>xs.find(p)?.amount || 1\<close> on the results of a recipe and on its ingredients.
\<close>

definition result_amount_of :: "string \<Rightarrow> result list \<Rightarrow> rat" where
  "result_amount_of itemName rs =
     or_default (case find (\<lambda>result. res_name result = itemName) rs of
                   None \<Rightarrow> None | Some result \<Rightarrow> res_amount result) 1"

definition ingredient_amount_of :: "string \<Rightarrow> ingredient list \<Rightarrow> rat" where
  "ingredient_amount_of itemName is =
     or_default (map_option ing_amount (find (\<lambda>ingredient. ing_name ingredient = itemName) is)) 1"

function exploreItem ::
  "factorioData \<Rightarrow> int \<Rightarrow> string \<Rightarrow> int \<Rightarrow> string set \<Rightarrow> graph_state \<Rightarrow> graph_state" where
  "exploreItem fd maxDepth itemName currentDepth visited s =
     (if currentDepth > maxDepth then s
      else if itemName \<in> visited then s
      else
        let visited' = insert itemName visited;
            itemId = item_id itemName;
            s0 = sg_addNode itemId TItem itemName (item_properties fd itemName) s
        in fold (\<lambda>recipe s.
             let recipeKey = key recipe;
                 recipeId = recipe_id recipeKey;
                 sp =
                   (if list_ex (\<lambda>result. res_name result = itemName) (results recipe)
                    then
                      let s1 = sg_addNode recipeId TRecipe recipeKey (recipe_properties recipe) s;
                          outputAmount = result_amount_of itemName (results recipe);
                          s2 = sg_addLink recipeId itemId Produces outputAmount s1
                      in fold (\<lambda>ingredient s.
                           let ingredientId = item_id (ing_name ingredient);
                               s3 = sg_addNode ingredientId TItem (ing_name ingredient)
                                      (item_properties fd (ing_name ingredient)) s;
                               s4 = sg_addLink ingredientId recipeId ConsumedBy
                                      (ing_amount ingredient) s3
                           in if currentDepth < maxDepth
                              then exploreItem fd maxDepth (ing_name ingredient)
                                     (currentDepth + 1) visited' s4
                              else s4)
                         (ingredients recipe) s2
                    else s)
             in if list_ex (\<lambda>ingredient. ing_name ingredient = itemName) (ingredients recipe)
                then
                  let s5 = sg_addNode recipeId TRecipe recipeKey (recipe_properties recipe) sp;
                      inputAmount = ingredient_amount_of itemName (ingredients recipe);
                      s6 = sg_addLink itemId recipeId ConsumedBy inputAmount s5
                  in fold (\<lambda>result s.
                       let productId = item_id (res_name result);
                           s7 = sg_addNode productId TItem (res_name result)
                                  (item_properties fd (res_name result)) s;
                           s8 = sg_addLink recipeId productId Produces
                                  (or_default (res_amount result) 1) s7
                       in if currentDepth < maxDepth
                          then exploreItem fd maxDepth (res_name result)
                                 (currentDepth + 1) visited' s8
                          else s8)
                     (results recipe) s6
                else sp)
           (recipes fd) s0)"
  by pat_completeness auto
termination
  by (relation "measure (\<lambda>(fd, maxDepth, itemName, currentDepth, visited, s).
        nat (maxDepth - currentDepth))") auto

declare exploreItem.simps [simp del]

definition generateItemSubgraph :: "factorioData \<Rightarrow> string \<Rightarrow> int \<Rightarrow> error + graph" where
  "generateItemSubgraph fd itemName maxDepth =
     (let s = exploreItem fd maxDepth itemName 0 {}
                \<lparr>g_nodes = [], g_links = [], g_nodeMap = Map.empty\<rparr>
      in case mapE (\<lambda>link. resolve_link (g_nodes s)
                      (or_default (Some (il_amount link)) 1) link) (g_links s) of
           Inl e \<Rightarrow> Inl e
         | Inr links \<Rightarrow>
             Inr \<lparr>gr_nodes = map (\<lambda>node. node\<lparr>gn_index := None\<rparr>) (g_nodes s),
                  gr_links = links\<rparr>)"

subsection \<open>The handler of /multi-item-graph\<close>

record merge_state =
  mg_nodes :: "graph_node list"
  mg_links :: "graph_link list"
  mg_nodeMap :: "string \<Rightarrow> nat option"
  mg_allNodes :: "string set"
  mg_allLinks :: "string set"

definition linkId :: "graph_link \<Rightarrow> string" where
  "linkId link =
     gl_source link @ ''|'' @ gl_target link @ ''|'' @ relationship_name (gl_relationship link)"

definition merge_node :: "graph_node \<Rightarrow> merge_state \<Rightarrow> merge_state" where
  "merge_node node m =
     (if gn_id node \<notin> mg_allNodes m
      then m\<lparr>mg_allNodes := insert (gn_id node) (mg_allNodes m),
              mg_nodes := mg_nodes m @ [node],
              mg_nodeMap := (mg_nodeMap m)(gn_id node \<mapsto> length (mg_nodes m))\<rparr>
      else m)"

definition merge_link :: "graph_link \<Rightarrow> merge_state \<Rightarrow> merge_state" where
  "merge_link link m =
     (if linkId link \<notin> mg_allLinks m
      then m\<lparr>mg_allLinks := insert (linkId link) (mg_allLinks m),
              mg_links := mg_links m @
                [\<lparr>gl_source = gl_source link, gl_target = gl_target link,
                  gl_relationship = gl_relationship link, gl_amount = gl_amount link\<rparr>]\<rparr>
      else m)"

definition merge_subgraph :: "graph \<Rightarrow> merge_state \<Rightarrow> merge_state" where
  "merge_subgraph subgraph m =
     fold merge_link (gr_links subgraph) (fold merge_node (gr_nodes subgraph) m)"

text \<open>
  The request body gives the item names and, unless it names another, the depth 1. An
  empty array is answered with 400.
\<close>

definition post_multi_item_graph ::
  "factorioData \<Rightarrow> string list \<Rightarrow> int \<Rightarrow> error + graph" where
  "post_multi_item_graph fd itemNames depth =
     (if itemNames = [] then Inl BadRequest
      else
        case forEachE (\<lambda>itemName m.
                 case generateItemSubgraph fd itemName depth of
                   Inl e \<Rightarrow> Inl e
                 | Inr subgraph \<Rightarrow> Inr (merge_subgraph subgraph m))
               itemNames
               \<lparr>mg_nodes = [], mg_links = [], mg_nodeMap = Map.empty,
                mg_allNodes = {}, mg_allLinks = {}\<rparr> of
          Inl e \<Rightarrow> Inl e
        | Inr m \<Rightarrow> Inr \<lparr>gr_nodes = mg_nodes m, gr_links = mg_links m\<rparr>)"


section \<open>Example datasets\<close>

text \<open>
  Two recipes that form a cycle: the recipe keyed \<open>kx\<close> makes \<open>p\<close> of item \<open>x\<close> from \<open>a\<close> of
  item \<open>y\<close>, and the recipe keyed \<open>ky\<close> makes \<open>q\<close> of \<open>y\<close> from \<open>b\<close> of \<open>x\<close>.
\<close>

definition cycle_x :: "string \<Rightarrow> string \<Rightarrow> string \<Rightarrow> rat \<Rightarrow> rat option \<Rightarrow> recipe" where
  "cycle_x kx x y a p =
     \<lparr>key = kx, category = ''crafting'', energy_required = None,
      ingredients = [\<lparr>ing_name = y, ing_amount = a\<rparr>],
      results = [\<lparr>res_name = x, res_amount = p\<rparr>]\<rparr>"

definition cycle_data ::
  "string \<Rightarrow> string \<Rightarrow> string \<Rightarrow> string \<Rightarrow> rat \<Rightarrow> rat \<Rightarrow> rat option \<Rightarrow> rat option
    \<Rightarrow> factorioData" where
  "cycle_data kx ky x y a b p q =
     \<lparr>recipes = [cycle_x kx x y a p, cycle_x ky y x b q], items = Map.empty\<rparr>"

text \<open>
  A target \<open>t\<close> made from one \<open>b\<close> and one \<open>c\<close>, each of which is made three at a time
  from one raw \<open>a\<close>: item \<open>a\<close> is reached along two paths, with a third of a unit on each.
\<close>

definition thirds_recipe :: recipe where
  "thirds_recipe =
     \<lparr>key = ''t'', category = ''crafting'', energy_required = Some 1,
      ingredients = [\<lparr>ing_name = ''b'', ing_amount = 1\<rparr>, \<lparr>ing_name = ''c'', ing_amount = 1\<rparr>],
      results = [\<lparr>res_name = ''t'', res_amount = Some 1\<rparr>]\<rparr>"

definition thirds_data :: factorioData where
  "thirds_data =
     \<lparr>recipes =
        [thirds_recipe,
         \<lparr>key = ''b'', category = ''crafting'', energy_required = Some 1,
          ingredients = [\<lparr>ing_name = ''a'', ing_amount = 1\<rparr>],
          results = [\<lparr>res_name = ''b'', res_amount = Some 3\<rparr>]\<rparr>,
         \<lparr>key = ''c'', category = ''crafting'', energy_required = Some 1,
          ingredients = [\<lparr>ing_name = ''a'', ing_amount = 1\<rparr>],
          results = [\<lparr>res_name = ''c'', res_amount = Some 3\<rparr>]\<rparr>],
      items = Map.empty\<rparr>"

text \<open>
  The worked example: ingredients \<open>a:1\<close> and \<open>b:2\<close>, one unit of output, crafting time 1.
\<close>

definition worked_recipe :: recipe where
  "worked_recipe =
     \<lparr>key = ''out'', category = ''crafting'', energy_required = Some 1,
      ingredients = [\<lparr>ing_name = ''a'', ing_amount = 1\<rparr>, \<lparr>ing_name = ''b'', ing_amount = 2\<rparr>],
      results = [\<lparr>res_name = ''out'', res_amount = Some 1\<rparr>]\<rparr>"

definition worked_data :: factorioData where
  "worked_data = \<lparr>recipes = [worked_recipe], items = Map.empty\<rparr>"

text \<open>
  A target \<open>t\<close> with a given list of ingredients, and an item \<open>b\<close> made from \<open>c\<close>; nothing
  produces \<open>c\<close>. With the ingredients \<open>b\<close> and \<open>c\<close> and the depth 1, the flow builder meets
  \<open>c\<close> first below \<open>b\<close>, at the depth limit, and then as an ingredient of \<open>t\<close>.
\<close>

definition relabel_recipe :: "ingredient list \<Rightarrow> recipe" where
  "relabel_recipe is =
     \<lparr>key = ''t'', category = ''crafting'', energy_required = Some 1,
      ingredients = is, results = [\<lparr>res_name = ''t'', res_amount = Some 1\<rparr>]\<rparr>"

definition relabel_data :: "ingredient list \<Rightarrow> factorioData" where
  "relabel_data is =
     \<lparr>recipes =
        [relabel_recipe is,
         \<lparr>key = ''b'', category = ''crafting'', energy_required = Some 1,
          ingredients = [\<lparr>ing_name = ''c'', ing_amount = 1\<rparr>],
          results = [\<lparr>res_name = ''b'', res_amount = Some 1\<rparr>]\<rparr>],
      items = Map.empty\<rparr>"

definition ing_b :: ingredient where
  "ing_b = \<lparr>ing_name = ''b'', ing_amount = 1\<rparr>"

definition ing_c :: ingredient where
  "ing_c = \<lparr>ing_name = ''c'', ing_amount = 1\<rparr>"

text \<open>
  The nodes and the link that \<^verbatim>\<open>buildSankeyData\<close> adds for the recipe of \<open>t\<close> at rate 1
  before it turns to the ingredients.
\<close>

definition relabel_start :: sankey_state where
  "relabel_start =
     sk_addLink 0 1 1
       (snd (sk_addNode ''t'' TItem (snd (sk_addNode ''Recipe: t'' TRecipe sankey_empty))))"

text \<open>The names and types of the nodes of a flow, in order.\<close>

definition node_labels :: "sankey_node list \<Rightarrow> (string \<times> node_type) list" where
  "node_labels nodes = map (\<lambda>node. (sn_name node, sn_type node)) nodes"


section \<open>Auxiliary facts\<close>

lemma floor_rat_numeral [simp]:
  "\<lfloor>numeral a / numeral b :: rat\<rfloor> = numeral a div numeral b"
  by (metis floor_divide_of_int_eq of_int_numeral)

lemma ceiling_rat_numeral [simp]:
  "\<lceil>numeral a / numeral b :: rat\<rceil> = - (- numeral a div numeral b)"
  using ceiling_divide_eq_div[of "numeral a" "numeral b", where ?'a = rat] by simp


lemma forEachE_total:
  "(\<And>x s. x \<in> set xs \<Longrightarrow> \<exists>s'. f x s = Inr s') \<Longrightarrow> \<exists>s'. forEachE f xs s = Inr s'"
proof (induction xs arbitrary: s)
  case Nil
  then show ?case by simp
next
  case (Cons x xs)
  from Cons.prems[of x s] obtain s1 where "f x s = Inr s1" by auto
  moreover from Cons.IH[of s1] Cons.prems obtain s2 where "forEachE f xs s1 = Inr s2" by auto
  ultimately show ?case by simp
qed


subsection \<open>calculateFullRequirements returns\<close>

lemma calculateFullRequirements_total:
  "results r \<noteq> [] \<Longrightarrow> \<exists>reqs'. calculateFullRequirements fd r rate reqs seen = Inr reqs'"
proof (induction fd r rate reqs seen rule: calculateFullRequirements.induct)
  case (1 fd recipe targetRate requirements seen)
  from "1.prems" obtain result0 rest where res: "results recipe = result0 # rest"
    by (cases "results recipe") auto
  show ?case
  proof (cases "key recipe \<in> seen")
    case True
    then show ?thesis
      by (simp add: calculateFullRequirements.simps[of fd recipe] res)
  next
    case False
    have "\<exists>s'. forEachE (\<lambda>ingredient requirements.
              let ingredientName = ing_name ingredient;
                  amountNeeded = (ing_amount ingredient * targetRate)
                                   / or_default (res_amount result0) 1;
                  requirements' = add_requirement requirements ingredientName amountNeeded
              in case findRecipeForItem fd ingredientName of
                   None \<Rightarrow> Inr requirements'
                 | Some ingredientRecipe \<Rightarrow>
                     calculateFullRequirements fd ingredientRecipe amountNeeded
                       requirements' (insert (key recipe) seen))
            (ingredients recipe) requirements = Inr s'"
    proof (rule forEachE_total, goal_cases)
      case (1 x s)
      show ?case
      proof (cases "findRecipeForItem fd (ing_name x)")
        case None
        then show ?thesis by simp
      next
        case (Some ir)
        with "1.IH"[OF res refl refl False 1(1) refl refl refl Some]
          findRecipeForItem_results[OF Some]
        show ?thesis by (simp add: Let_def)
      qed
    qed
    then show ?thesis
      using False by (simp add: calculateFullRequirements.simps[of fd recipe] res Let_def)
  qed
qed


subsection \<open>The totals are linear in the rate\<close>





subsection \<open>The tree\<close>

lemma fold_max_le: "fold max xs (a::nat) \<le> n \<longleftrightarrow> a \<le> n \<and> (\<forall>x\<in>set xs. x \<le> n)"
  by (induction xs arbitrary: a) auto

lemma mapE_all:
  "(\<And>x. x \<in> set xs \<Longrightarrow> \<exists>y. f x = Inr y \<and> P y)
    \<Longrightarrow> \<exists>ys. mapE f xs = Inr ys \<and> (\<forall>y\<in>set ys. P y)"
proof (induction xs)
  case Nil
  then show ?case by simp
next
  case (Cons x xs)
  from Cons.prems[of x] obtain y where y: "f x = Inr y" "P y" by auto
  from Cons.IH Cons.prems obtain ys where ys: "mapE f xs = Inr ys" "\<forall>y\<in>set ys. P y" by auto
  from y ys show ?case by simp
qed

lemma generateRecipeTree_root:
  "results r \<noteq> [] \<Longrightarrow>
     \<exists>t. generateRecipeTree fd r rate depth = Inr t
       \<and> tree_levels t \<le> Suc (nat depth) \<and> tr_rate t = rate \<and> tr_recipe t = key r"
proof (induction fd r rate depth rule: generateRecipeTree.induct)
  case (1 fd recipe targetRate depth)
  from "1.prems" obtain result0 rest where res: "results recipe = result0 # rest"
    by (cases "results recipe") auto
  show ?case
  proof (cases "depth \<le> 0")
    case True
    then show ?thesis
      by (simp add: generateRecipeTree.simps[of fd recipe] res Let_def tree_levels_def)
  next
    case False
    have "\<exists>ys. mapE (\<lambda>ingredient.
             let ingredientName = ing_name ingredient;
                 ingredientRate = (ing_amount ingredient * targetRate)
                                    / or_default (res_amount result0) 1
             in case findRecipeForItem fd ingredientName of
                  Some ingredientRecipe \<Rightarrow>
                    (case generateRecipeTree fd ingredientRecipe ingredientRate (depth - 1) of
                       Inl e \<Rightarrow> Inl e
                     | Inr subTree \<Rightarrow>
                         Inr (RecipeChild ingredientName (round2 ingredientRate)
                                (tr_recipe subTree) (tr_machines subTree)
                                (tr_time subTree) (tr_children subTree)))
                | None \<Rightarrow> Inr (RawChild ingredientName (round2 ingredientRate)))
           (ingredients recipe) = Inr ys \<and> (\<forall>y\<in>set ys. child_levels y \<le> nat depth)"
    proof (rule mapE_all, goal_cases)
      case (1 x)
      show ?case
      proof (cases "findRecipeForItem fd (ing_name x)")
        case None
        then show ?thesis by simp
      next
        case (Some ir)
        from "1.IH"[OF res refl refl refl refl refl refl False 1 refl refl Some]
          findRecipeForItem_results[OF Some]
        obtain t where t: "generateRecipeTree fd ir
            (ing_amount x * targetRate / or_default (res_amount result0) 1) (depth - 1) = Inr t"
          "tree_levels t \<le> Suc (nat (depth - 1))"
          by auto
        from False have "Suc (nat (depth - 1)) = nat depth" by simp
        with t Some show ?thesis by (simp add: Let_def tree_levels_def)
      qed
    qed
    then show ?thesis
      using False
      by (auto simp add: generateRecipeTree.simps[of fd recipe] res Let_def tree_levels_def
          fold_max_le)
  qed
qed


subsection \<open>The table\<close>

lemma forEachE_inv:
  "I s \<Longrightarrow> (\<And>x s. x \<in> set xs \<Longrightarrow> I s \<Longrightarrow> \<exists>s'. f x s = Inr s' \<and> I s')
    \<Longrightarrow> \<exists>s'. forEachE f xs s = Inr s' \<and> I s'"
proof (induction xs arbitrary: s)
  case Nil
  then show ?case by simp
next
  case (Cons x xs)
  from Cons.prems(2)[of x s] Cons.prems(1) obtain s1 where s1: "f x s = Inr s1" "I s1" by auto
  from Cons.IH[OF s1(2)] Cons.prems(2) obtain s2 where "forEachE f xs s1 = Inr s2" "I s2"
    by auto
  with s1 show ?case by simp
qed





lemma add_recipe_entry_raw [simp]:
  "t_rawMaterials (add_recipe_entry k ct m rate out t) = t_rawMaterials t"
  by (simp add: add_recipe_entry_def split: option.splits)



lemma add_item_entry_same [simp]:
  "t_recipes (add_item_entry out k rate t) = t_recipes t"
  "t_rawMaterials (add_item_entry out k rate t) = t_rawMaterials t"
  by (simp_all add: add_item_entry_def split: option.splits)

lemma update_consumption_same [simp]:
  "t_recipes (update_consumption n k rate t) = t_recipes t"
  "t_rawMaterials (update_consumption n k rate t) = t_rawMaterials t"
  by (simp_all add: update_consumption_def split: option.splits)

lemma add_raw_material_recipes [simp]:
  "t_recipes (add_raw_material n rate t) = t_recipes t"
  by (simp add: add_raw_material_def split: option.splits)









subsection \<open>The flow\<close>

definition sk_extends :: "sankey_state \<Rightarrow> sankey_state \<Rightarrow> bool" where
  "sk_extends s s' \<longleftrightarrow>
     length (sk_nodes s) \<le> length (sk_nodes s')
   \<and> (\<forall>i<length (sk_nodes s).
         sn_name (sk_nodes s' ! i) = sn_name (sk_nodes s ! i)
       \<and> (sn_type (sk_nodes s' ! i) = sn_type (sk_nodes s ! i)
            \<or> sn_type (sk_nodes s' ! i) = TRaw))
   \<and> (\<forall>name i. sk_nodeMap s name = Some i \<longrightarrow> sk_nodeMap s' name = Some i)
   \<and> take (length (sk_links s)) (sk_links s') = sk_links s"

lemma sk_extends_refl [simp]: "sk_extends s s"
  by (simp add: sk_extends_def)

lemma take_prefix_trans:
  "take (length a) b = a \<Longrightarrow> take (length b) c = b \<Longrightarrow> take (length a) c = a"
  by (metis append_eq_conv_conj append_take_drop_id append.assoc)

lemma sk_extends_trans: "sk_extends a b \<Longrightarrow> sk_extends b c \<Longrightarrow> sk_extends a c"
  unfolding sk_extends_def
  apply (intro conjI allI impI)
     apply simp
    apply (metis order.strict_trans2)
  apply (metis (no_types, lifting) order.strict_trans2)
   apply blast
  apply (metis take_prefix_trans)
  done

lemma sankey_ok_nth:
  "sankey_ok s \<Longrightarrow> i < length (sk_nodes s) \<Longrightarrow> sk_nodeMap s (sn_name (sk_nodes s ! i)) = Some i"
  by (simp add: sankey_ok_def)

lemma sankey_ok_Some:
  "sankey_ok s \<Longrightarrow> sk_nodeMap s n = Some i \<Longrightarrow> i < length (sk_nodes s) \<and> sn_name (sk_nodes s ! i) = n"
  by (simp add: sankey_ok_def)

lemma sk_addNode_old:
  "sk_nodeMap s name = Some i \<Longrightarrow> sk_addNode name ty s = (i, s)"
  by (simp add: sk_addNode_def)

lemma sk_addNode_new:
  "sk_nodeMap s name = None \<Longrightarrow>
     sk_addNode name ty s = (length (sk_nodes s),
       s\<lparr>sk_nodes := sk_nodes s @ [\<lparr>sn_name = name, sn_id = length (sk_nodes s), sn_type = ty\<rparr>],
         sk_nodeMap := (sk_nodeMap s)(name \<mapsto> length (sk_nodes s))\<rparr>)"
  by (simp add: sk_addNode_def Let_def)

lemma sankey_ok_new:
  assumes ok: "sankey_ok s" and new: "sk_nodeMap s name = None"
  shows "sankey_ok (s\<lparr>sk_nodes := sk_nodes s @ [\<lparr>sn_name = name, sn_id = k, sn_type = ty\<rparr>],
         sk_nodeMap := (sk_nodeMap s)(name \<mapsto> length (sk_nodes s))\<rparr>)"
  unfolding sankey_ok_def
proof (intro allI)
  fix m j
  let ?s' = "s\<lparr>sk_nodes := sk_nodes s @ [\<lparr>sn_name = name, sn_id = k, sn_type = ty\<rparr>],
         sk_nodeMap := (sk_nodeMap s)(name \<mapsto> length (sk_nodes s))\<rparr>"
  consider "j < length (sk_nodes s)" | "j = length (sk_nodes s)" | "j > length (sk_nodes s)"
    by linarith
  then show "(sk_nodeMap ?s' m = Some j) = (j < length (sk_nodes ?s') \<and> sn_name (sk_nodes ?s' ! j) = m)"
  proof cases
    case 1
    then have nth: "sk_nodes ?s' ! j = sk_nodes s ! j" by (simp add: nth_append)
    show ?thesis
    proof (cases "m = name")
      case True
      have "sn_name (sk_nodes s ! j) \<noteq> name"
        using sankey_ok_nth[OF ok 1] new by auto
      then show ?thesis using True 1 nth by simp
    next
      case False
      then show ?thesis using ok 1 nth by (simp add: sankey_ok_def)
    qed
  next
    case 2
    have "sk_nodeMap s m \<noteq> Some (length (sk_nodes s))"
      using sankey_ok_Some[OF ok, of m "length (sk_nodes s)"] by auto
    then show ?thesis using 2 by auto
  next
    case 3
    have "sk_nodeMap s m \<noteq> Some j"
      using sankey_ok_Some[OF ok, of m j] 3 by auto
    then show ?thesis using 3 by auto
  qed
qed

lemma sk_addNode_props:
  assumes "sankey_ok s" "sk_addNode name ty s = (i, s')"
  shows "sankey_ok s'" "sk_extends s s'" "sk_nodeMap s' name = Some i" "i < length (sk_nodes s')"
    "sk_links s' = sk_links s"
    "sk_nodeMap s name = None \<Longrightarrow> sn_type (sk_nodes s' ! i) = ty"
    "sk_nodeMap s name \<noteq> None \<Longrightarrow> s' = s"
proof -
  have main: "sankey_ok s' \<and> sk_extends s s' \<and> sk_nodeMap s' name = Some i
        \<and> i < length (sk_nodes s') \<and> sk_links s' = sk_links s"
  proof (cases "sk_nodeMap s name")
    case None
    from sk_addNode_new[OF None, of ty] assms(2)
    have eq: "i = length (sk_nodes s)"
      "s' = s\<lparr>sk_nodes := sk_nodes s @ [\<lparr>sn_name = name, sn_id = length (sk_nodes s), sn_type = ty\<rparr>],
         sk_nodeMap := (sk_nodeMap s)(name \<mapsto> length (sk_nodes s))\<rparr>"
      by auto
    have "sankey_ok s'" unfolding eq(2) using assms(1) None by (rule sankey_ok_new)
    moreover have "sk_extends s s'"
      unfolding eq(2) using None by (auto simp: sk_extends_def nth_append)
    ultimately show ?thesis
      by (simp add: eq)
  next
    case (Some j)
    from sk_addNode_old[OF Some, of ty] assms(2) have "i = j" "s' = s" by auto
    then show ?thesis
      using assms(1) Some sankey_ok_Some[OF assms(1) Some] by simp
  qed
  then show "sankey_ok s'" "sk_extends s s'" "sk_nodeMap s' name = Some i"
    "i < length (sk_nodes s')" "sk_links s' = sk_links s"
    by simp_all
  show "sn_type (sk_nodes s' ! i) = ty" if "sk_nodeMap s name = None"
    using sk_addNode_new[OF that, of ty] assms(2) by auto
  show "s' = s" if "sk_nodeMap s name \<noteq> None"
    using that assms(2) by (auto simp: sk_addNode_def)
qed

lemma sk_addLink_props:
  "sankey_ok (sk_addLink a b v s) = sankey_ok s"
  "sk_extends s (sk_addLink a b v s)"
  "sk_nodes (sk_addLink a b v s) = sk_nodes s"
  "sk_nodeMap (sk_addLink a b v s) = sk_nodeMap s"
  "sk_links (sk_addLink a b v s) = sk_links s @ [\<lparr>sl_source = a, sl_target = b, sl_value = max (1 / 100) v\<rparr>]"
  by (simp_all add: sk_addLink_def sankey_ok_def sk_extends_def)

lemma sk_markRaw_props:
  assumes "i < length (sk_nodes s)"
  shows "\<exists>s'. sk_markRaw i s = Inr s' \<and> (sankey_ok s \<longrightarrow> sankey_ok s') \<and> sk_extends s s'
     \<and> sn_type (sk_nodes s' ! i) = TRaw \<and> sk_nodeMap s' = sk_nodeMap s"
  using assms
  by (auto simp: sk_markRaw_def sankey_ok_def sk_extends_def nth_list_update)

lemma buildSankeyData_extends:
  "sankey_ok s \<Longrightarrow> (currentDepth \<le> depth \<Longrightarrow> results r \<noteq> []) \<Longrightarrow>
     \<exists>s'. buildSankeyData fd depth r rate currentDepth visited s = Inr s'
       \<and> sankey_ok s' \<and> sk_extends s s'"
proof (induction fd depth r rate currentDepth visited s rule: buildSankeyData.induct)
  case (1 fd depth recipe rate currentDepth visited s)
  show ?case
  proof (cases "currentDepth > depth")
    case True
    then show ?thesis
      using "1.prems"(1) by (simp add: buildSankeyData.simps[of fd depth recipe])
  next
    case ngt: False
    with "1.prems"(2) obtain result0 rest where res: "results recipe = result0 # rest"
      by (cases "results recipe") auto
    show ?thesis
    proof (cases "key recipe \<in> visited")
      case True
      then show ?thesis
        using "1.prems"(1) ngt by (simp add: buildSankeyData.simps[of fd depth recipe] res)
    next
      case nv: False
      define oa where "oa = or_default (res_amount result0) 1"
      obtain rid s1 where a1: "sk_addNode (''Recipe: '' @ key recipe) TRecipe s = (rid, s1)"
        by (cases "sk_addNode (''Recipe: '' @ key recipe) TRecipe s")
      obtain oid s2 where a2: "sk_addNode (res_name result0) TItem s1 = (oid, s2)"
        by (cases "sk_addNode (res_name result0) TItem s1")
      define s3 where "s3 = sk_addLink rid oid rate s2"
      note p1 = sk_addNode_props[OF "1.prems"(1) a1]
      note p2 = sk_addNode_props[OF p1(1) a2]
      have ok3: "sankey_ok s3" and ext3: "sk_extends s s3"
        using p1(2) p2(1,2) sk_addLink_props(1,2)[where a=rid and b=oid and v=rate and s=s2] sk_extends_trans
        unfolding s3_def by blast+
      let ?body = "\<lambda>ingredient s.
                        let ingredientName = ing_name ingredient;
                            ingredientRate = (ing_amount ingredient * rate) / oa;
                            (ingredientNodeId, s4) = sk_addNode ingredientName TItem s;
                            s5 = sk_addLink ingredientNodeId rid ingredientRate s4
                        in if currentDepth < depth
                           then (case findRecipeForItem fd ingredientName of
                                   Some ingredientRecipe \<Rightarrow>
                                     buildSankeyData fd depth ingredientRecipe ingredientRate
                                       (currentDepth + 1) (insert (key recipe) visited) s5
                                 | None \<Rightarrow> sk_markRaw ingredientNodeId s5)
                           else Inr s5"
      have "\<exists>s'. forEachE ?body (ingredients recipe) s3 = Inr s'
          \<and> (sankey_ok s' \<and> sk_extends s s')"
      proof (rule forEachE_inv[of "\<lambda>s'. sankey_ok s' \<and> sk_extends s s'"], goal_cases)
        case 1
        show ?case using ok3 ext3 by simp
      next
        case (2 x t)
        obtain iid s4 where a4: "sk_addNode (ing_name x) TItem t = (iid, s4)"
          by (cases "sk_addNode (ing_name x) TItem t")
        define s5 where "s5 = sk_addLink iid rid (ing_amount x * rate / oa) s4"
        note p4 = sk_addNode_props[OF _ a4]
        have ok5: "sankey_ok s5" and ext5: "sk_extends s s5" and len5: "iid < length (sk_nodes s5)"
          using 2(2) p4(1,2,4) sk_addLink_props(1,2,3)[where a=iid and b=rid and v="ing_amount x * rate / oa" and s=s4]
            sk_extends_trans
          unfolding s5_def by (blast, blast, simp)
        show ?case
        proof (cases "currentDepth < depth")
          case False
          then show ?thesis using ok5 ext5 by (simp add: Let_def a4 s5_def)
        next
          case lt: True
          show ?thesis
          proof (cases "findRecipeForItem fd (ing_name x)")
            case None
            from sk_markRaw_props[OF len5] obtain s6 where "sk_markRaw iid s5 = Inr s6"
              "sankey_ok s6" "sk_extends s5 s6"
              using ok5 by blast
            then show ?thesis
              using lt None ext5 sk_extends_trans by (auto simp: Let_def a4 s5_def)
          next
            case (Some ir)
            from "1.IH"[OF ngt res refl refl refl oa_def nv refl a1[symmetric] refl a2[symmetric]
                s3_def 2(1) refl refl refl a4[symmetric] s5_def lt Some ok5]
              findRecipeForItem_results[OF Some]
            obtain s6 where "buildSankeyData fd depth ir (ing_amount x * rate / oa)
                (currentDepth + 1) (insert (key recipe) visited) s5 = Inr s6"
              "sankey_ok s6" "sk_extends s5 s6"
              by blast
            then show ?thesis
              using lt Some ext5 sk_extends_trans by (auto simp: Let_def a4 s5_def)
          qed
        qed
      qed
      then show ?thesis
        using ngt nv a1
        by (simp add: buildSankeyData.simps[of fd depth recipe] res Let_def a2 s3_def oa_def)
    qed
  qed
qed

lemma buildSankeyData_unfold:
  "buildSankeyData fd depth recipe rate currentDepth visited s =
     (if currentDepth > depth then Inr s
      else
        case results recipe of
          [] \<Rightarrow> Inl TypeError
        | result0 # _ \<Rightarrow>
            if key recipe \<in> visited then Inr s
            else
              let (recipeNodeId, s1) = sk_addNode (''Recipe: '' @ key recipe) TRecipe s;
                  (outputNodeId, s2) = sk_addNode (res_name result0) TItem s1;
                  s3 = sk_addLink recipeNodeId outputNodeId rate s2
              in forEachE (sankey_ingredient fd depth currentDepth (insert (key recipe) visited)
                     rate (or_default (res_amount result0) 1) recipeNodeId)
                   (ingredients recipe) s3)"
  by (subst buildSankeyData.simps)
     (simp add: Let_def sankey_ingredient_def[abs_def] split: list.splits prod.splits)

lemma sankey_ingredient_extends:
  assumes "sankey_ok t"
  shows "\<exists>t'. sankey_ingredient fd depth cd visited rate oa rid x t = Inr t'
     \<and> sankey_ok t' \<and> sk_extends t t'"
proof -
  obtain iid s4 where a4: "sk_addNode (ing_name x) TItem t = (iid, s4)"
    by (cases "sk_addNode (ing_name x) TItem t")
  define s5 where "s5 = sk_addLink iid rid (ing_amount x * rate / oa) s4"
  note p4 = sk_addNode_props[OF assms a4]
  have ok5: "sankey_ok s5" and ext5: "sk_extends t s5" and len5: "iid < length (sk_nodes s5)"
    using p4(1,2,4)
      sk_addLink_props(1,2,3)[where a=iid and b=rid and v="ing_amount x * rate / oa" and s=s4]
      sk_extends_trans
    unfolding s5_def by (blast, blast, simp)
  show ?thesis
  proof (cases "cd < depth")
    case False
    then show ?thesis using ok5 ext5 by (simp add: sankey_ingredient_def Let_def a4 s5_def)
  next
    case lt: True
    show ?thesis
    proof (cases "findRecipeForItem fd (ing_name x)")
      case None
      from sk_markRaw_props[OF len5] obtain s6 where "sk_markRaw iid s5 = Inr s6"
        "sankey_ok s6" "sk_extends s5 s6"
        using ok5 by blast
      then show ?thesis
        using lt None ext5 sk_extends_trans
        by (auto simp: sankey_ingredient_def Let_def a4 s5_def)
    next
      case (Some ir)
      from buildSankeyData_extends[OF ok5, of "cd + 1" depth ir fd "ing_amount x * rate / oa" visited]
        findRecipeForItem_results[OF Some]
      obtain s6 where "buildSankeyData fd depth ir (ing_amount x * rate / oa)
          (cd + 1) visited s5 = Inr s6" "sankey_ok s6" "sk_extends s5 s6"
        by blast
      then show ?thesis
        using lt Some ext5 sk_extends_trans
        by (auto simp: sankey_ingredient_def Let_def a4 s5_def)
    qed
  qed
qed



lemma raw_persists:
  assumes "sankey_ok s" "sk_extends s s'" "sk_type s n = Some TRaw"
  shows "sk_type s' n = Some TRaw"
proof -
  from assms(3) obtain i where i: "sk_nodeMap s n = Some i" "sn_type (sk_nodes s ! i) = TRaw"
    by (auto simp: sk_type_def)
  from sankey_ok_Some[OF assms(1) i(1)] have "i < length (sk_nodes s)" by simp
  with assms(2) i show ?thesis
    by (auto simp: sk_extends_def sk_type_def)
qed

lemma sankey_ingredient_raw:
  assumes "sankey_ok s" "cd < depth" "findRecipeForItem fd (ing_name x) = None"
  shows "\<exists>s'. sankey_ingredient fd depth cd visited rate oa rid x s = Inr s'
     \<and> sk_type s' (ing_name x) = Some TRaw"
proof -
  obtain iid s4 where a4: "sk_addNode (ing_name x) TItem s = (iid, s4)"
    by (cases "sk_addNode (ing_name x) TItem s")
  define s5 where "s5 = sk_addLink iid rid (ing_amount x * rate / oa) s4"
  note p4 = sk_addNode_props[OF assms(1) a4]
  have len5: "iid < length (sk_nodes s5)" and map5: "sk_nodeMap s5 (ing_name x) = Some iid"
    using p4(3,4) by (simp_all add: s5_def sk_addLink_props)
  from sk_markRaw_props[OF len5] obtain s6 where s6: "sk_markRaw iid s5 = Inr s6"
    "sn_type (sk_nodes s6 ! iid) = TRaw" "sk_nodeMap s6 = sk_nodeMap s5"
    by blast
  then have "sk_type s6 (ing_name x) = Some TRaw"
    using map5 by (simp add: sk_type_def)
  then show ?thesis
    using s6(1) assms(2,3) by (simp add: sankey_ingredient_def Let_def a4 s5_def)
qed

lemma sankey_ingredient_at_limit:
  assumes "sankey_ok s" "depth \<le> cd"
  shows "\<exists>s'. sankey_ingredient fd depth cd visited rate oa rid x s = Inr s'
     \<and> (\<forall>n. sk_nodeMap s n \<noteq> None \<longrightarrow> sk_type s' n = sk_type s n)
     \<and> (sk_nodeMap s (ing_name x) = None \<longrightarrow> sk_type s' (ing_name x) = Some TItem)"
proof -
  obtain iid s4 where a4: "sk_addNode (ing_name x) TItem s = (iid, s4)"
    by (cases "sk_addNode (ing_name x) TItem s")
  define s5 where "s5 = sk_addLink iid rid (ing_amount x * rate / oa) s4"
  note p4 = sk_addNode_props[OF assms(1) a4]
  have res: "sankey_ingredient fd depth cd visited rate oa rid x s = Inr s5"
    using assms(2) by (simp add: sankey_ingredient_def Let_def a4 s5_def)
  have old: "sk_type s5 n = sk_type s n" if "sk_nodeMap s n \<noteq> None" for n
  proof -
    from that obtain i where i: "sk_nodeMap s n = Some i" by auto
    show ?thesis
    proof (cases "sk_nodeMap s (ing_name x)")
      case None
      then have "n \<noteq> ing_name x" using i by auto
      moreover have "i < length (sk_nodes s)" using sankey_ok_Some[OF assms(1) i] by simp
      ultimately show ?thesis
        using sk_addNode_new[OF None, of TItem] a4 i
        by (auto simp: sk_type_def s5_def sk_addLink_props nth_append)
    next
      case (Some j)
      then have "s4 = s" using p4(7) by simp
      then show ?thesis by (simp add: sk_type_def s5_def sk_addLink_props)
    qed
  qed
  have new: "sk_type s5 (ing_name x) = Some TItem" if "sk_nodeMap s (ing_name x) = None"
    using p4(3) p4(6)[OF that] by (simp add: sk_type_def s5_def sk_addLink_props)
  show ?thesis unfolding res using old new by simp
qed

lemma sankey_empty_ok: "sankey_ok sankey_empty"
  by (simp add: sankey_ok_def sankey_empty_def)




lemma sankey_ingredient_no_raw:
  assumes "sankey_ok s" "depth \<le> cd" "\<forall>node\<in>set (sk_nodes s). sn_type node \<noteq> TRaw"
  shows "\<exists>s'. sankey_ingredient fd depth cd visited rate oa rid x s = Inr s'
     \<and> sankey_ok s' \<and> (\<forall>node\<in>set (sk_nodes s'). sn_type node \<noteq> TRaw)"
proof -
  obtain iid s4 where a4: "sk_addNode (ing_name x) TItem s = (iid, s4)"
    by (cases "sk_addNode (ing_name x) TItem s")
  note p4 = sk_addNode_props[OF assms(1) a4]
  have "\<forall>node\<in>set (sk_nodes s4). sn_type node \<noteq> TRaw"
  proof (cases "sk_nodeMap s (ing_name x)")
    case None
    from sk_addNode_new[OF None, of TItem] a4 assms(3) show ?thesis by auto
  next
    case (Some j)
    with p4(7) assms(3) show ?thesis by simp
  qed
  then show ?thesis
    using assms(2) p4(1)
    by (simp add: sankey_ingredient_def Let_def a4 sk_addLink_props)
qed

lemma generateSankeyData_depth0:
  assumes res: "results r = result0 # rest"
  shows "\<exists>sd. generateSankeyData fd r rate 0 = Inr sd
     \<and> (\<forall>node\<in>set (sd_nodes sd). sn_type node \<noteq> TRaw)"
proof -
  obtain rid s1 where a1: "sk_addNode (''Recipe: '' @ key r) TRecipe sankey_empty = (rid, s1)"
    by (cases "sk_addNode (''Recipe: '' @ key r) TRecipe sankey_empty")
  obtain oid s2 where a2: "sk_addNode (res_name result0) TItem s1 = (oid, s2)"
    by (cases "sk_addNode (res_name result0) TItem s1")
  define s3 where "s3 = sk_addLink rid oid rate s2"
  note p1 = sk_addNode_props[OF sankey_empty_ok a1]
  note p2 = sk_addNode_props[OF p1(1) a2]
  have n1: "\<forall>node\<in>set (sk_nodes s1). sn_type node \<noteq> TRaw"
    using a1 by (auto simp: sk_addNode_def sankey_empty_def Let_def)
  have n2: "\<forall>node\<in>set (sk_nodes s2). sn_type node \<noteq> TRaw"
  proof (cases "sk_nodeMap s1 (res_name result0)")
    case None
    from sk_addNode_new[OF None, of TItem] a2 n1 show ?thesis by auto
  next
    case (Some j)
    with p2(7) n1 show ?thesis by simp
  qed
  have "\<exists>s'. forEachE (sankey_ingredient fd 0 0 (insert (key r) {}) rate
          (or_default (res_amount result0) 1) rid) (ingredients r) s3 = Inr s'
      \<and> (sankey_ok s' \<and> (\<forall>node\<in>set (sk_nodes s'). sn_type node \<noteq> TRaw))"
  proof (rule forEachE_inv[of "\<lambda>s'. sankey_ok s' \<and> (\<forall>node\<in>set (sk_nodes s'). sn_type node \<noteq> TRaw)"],
      goal_cases)
    case 1
    show ?case using p2(1) n2 by (simp add: s3_def sk_addLink_props)
  next
    case (2 x s)
    then show ?case
      using sankey_ingredient_no_raw[of s 0 0 fd "insert (key r) {}" rate
          "or_default (res_amount result0) 1" rid x]
      by simp
  qed
  then show ?thesis
    using a1
    by (auto simp: generateSankeyData_def buildSankeyData_unfold[of fd 0 r] res Let_def a2 s3_def)
qed


section \<open>The claims about the calculator\<close>




text \<open>
  C4. For a recipe with the ingredients \<open>a:1\<close> and \<open>b:2\<close>, one unit of primary output and
  crafting time 1, at the target rate 10 and in any dataset, \<^verbatim>\<open>calculateRequirements\<close>
  returns \<open>machinesNeeded = ceil(10 * 1 / (1 * 1.25) * 100) / 100 = 8\<close> and the ingredient
  rates \<open>a = 10\<close> and \<open>b = 20\<close>; where the recipe is the whole dataset, the aggregated
  demand is \<open>b = 20\<close> and \<open>a = 10\<close> as well.
\<close>

theorem worked_example:
  "(\<exists>res. calculateRequirements fd
        \<lparr>key = k, category = c, energy_required = Some 1,
         ingredients = [\<lparr>ing_name = a, ing_amount = 1\<rparr>, \<lparr>ing_name = b, ing_amount = 2\<rparr>],
         results = \<lparr>res_name = out, res_amount = Some 1\<rparr> # others\<rparr> 10 = Inr res
      \<and> rr_machinesNeeded res = ceil2 (10 * 1 / (1 * (5 / 4)))
      \<and> rr_machinesNeeded res = 8
      \<and> map (\<lambda>i. (ii_name i, ii_amountPerSecond i)) (rr_ingredients res) = [(a, 10), (b, 20)])
   \<and> map_sum (\<lambda>e. e)
        (\<lambda>res. (rr_machinesNeeded res,
               map (\<lambda>i. (ii_name i, ii_amountPerSecond i)) (rr_ingredients res),
               map (\<lambda>q. (rq_name q, rq_rate q)) (rr_fullRequirements res)))
        (calculateRequirements worked_data worked_recipe 10)
     = Inr (8, [(''a'', 10), (''b'', 20)], [(''b'', 20), (''a'', 10)])"
proof -
  define r where "r = \<lparr>key = k, category = c, energy_required = Some 1,
        ingredients = [\<lparr>ing_name = a, ing_amount = 1\<rparr>, \<lparr>ing_name = b, ing_amount = 2\<rparr>],
        results = \<lparr>res_name = out, res_amount = Some 1\<rparr> # others\<rparr>"
  have "results r \<noteq> []" by (simp add: r_def)
  then obtain reqs where reqs: "calculateFullRequirements fd r 10 [] {} = Inr reqs"
    using calculateFullRequirements_total by blast
  have "\<lceil>10 * 1 / (1 * (5 / 4)) * 100 :: rat\<rceil> = 800" by simp
  then have "ceil2 (10 * 1 / (1 * (5 / 4))) = 8" by (simp add: ceil2_def)
  then have general: "\<exists>res. calculateRequirements fd r 10 = Inr res
      \<and> rr_machinesNeeded res = ceil2 (10 * 1 / (1 * (5 / 4)))
      \<and> rr_machinesNeeded res = 8
      \<and> map (\<lambda>i. (ii_name i, ii_amountPerSecond i)) (rr_ingredients res) = [(a, 10), (b, 20)]"
    using reqs unfolding r_def
    by (simp add: calculateRequirements_def or_default_def Let_def)
  have alone: "map_sum (\<lambda>e. e)
        (\<lambda>res. (rr_machinesNeeded res,
               map (\<lambda>i. (ii_name i, ii_amountPerSecond i)) (rr_ingredients res),
               map (\<lambda>q. (rq_name q, rq_rate q)) (rr_fullRequirements res)))
        (calculateRequirements worked_data worked_recipe 10)
     = Inr (8, [(''a'', 10), (''b'', 20)], [(''b'', 20), (''a'', 10)])"
    by (simp add: calculateRequirements_def calculateFullRequirements.simps
        findRecipeForItem_def worked_data_def worked_recipe_def or_default_def Let_def
        add_requirement_def sort_by_rate_desc_def round2_def ceil2_def)
  from general alone show ?thesis unfolding r_def by blast
qed




section \<open>The claims about the view builders\<close>

lemmas flow_eval = generateSankeyData_def buildSankeyData.simps sankey_ingredient_def
  findRecipeForItem_def relabel_data_def relabel_recipe_def relabel_start_def ing_b_def
  ing_c_def node_labels_def sankey_empty_def sk_addNode_def sk_addLink_def sk_markRaw_def
  or_default_def Let_def

text \<open>
  C2, as the code has it. \<^verbatim>\<open>generateRecipeTree\<close> carries no set of visited recipes: what
  bounds its recursion is the depth alone. For every dataset, every recipe that
  \<^verbatim>\<open>findRecipeForItem\<close> finds, every rate and every depth it returns a tree of at most
  \<open>depth + 1\<close> levels of recipes (one level when the depth is not positive), so the handler
  of /tree, which leaves the depth at its default 5, returns at most 6 levels.
\<close>

theorem tree_bounded_by_depth:
  assumes "findRecipeForItem fd itemName = Some r"
  shows "(\<exists>t. generateRecipeTree fd r rate depth = Inr t \<and> tree_levels t \<le> Suc (nat depth))
       \<and> (\<exists>t. generateRecipeTree fd r rate 5 = Inr t \<and> tree_levels t \<le> 6)"
proof -
  have ne: "results r \<noteq> []" using assms by (rule findRecipeForItem_results)
  from generateRecipeTree_root[OF ne, of fd rate depth]
    generateRecipeTree_root[OF ne, of fd rate 5]
  show ?thesis by auto
qed

text \<open>The theorem of C2 at the cycle of \<open>x\<close> and \<open>y\<close>, for the depths 2 and 5.\<close>

theorem tree_bounded_by_depth_witness:
  "findRecipeForItem (cycle_data ''rx'' ''ry'' ''x'' ''y'' 1 1 None None) ''x''
     = Some (cycle_x ''rx'' ''x'' ''y'' 1 None)
   \<and> (\<exists>t. generateRecipeTree (cycle_data ''rx'' ''ry'' ''x'' ''y'' 1 1 None None)
            (cycle_x ''rx'' ''x'' ''y'' 1 None) 1 2 = Inr t \<and> tree_levels t \<le> 3)
   \<and> (\<exists>t. generateRecipeTree (cycle_data ''rx'' ''ry'' ''x'' ''y'' 1 1 None None)
            (cycle_x ''rx'' ''x'' ''y'' 1 None) 1 5 = Inr t \<and> tree_levels t \<le> 6)"
proof -
  have f: "findRecipeForItem (cycle_data ''rx'' ''ry'' ''x'' ''y'' 1 1 None None) ''x''
     = Some (cycle_x ''rx'' ''x'' ''y'' 1 None)"
    by (simp add: findRecipeForItem_def cycle_data_def cycle_x_def)
  show ?thesis
    using tree_bounded_by_depth[OF f, of 1 2] f by simp
qed

text \<open>
  C2 as the specification states it fails: the tree builder does not truncate cycles. In
  the cycle of \<open>x\<close> and \<open>y\<close> the tree of depth 2 expands the recipe of \<open>x\<close> again below the
  recipe of \<open>y\<close>, on its own descent path, and so does the tree of the default depth 5.
\<close>

theorem tree_cycle_counterexample:
  "generateRecipeTree (cycle_data ''rx'' ''ry'' ''x'' ''y'' 1 1 None None)
       (cycle_x ''rx'' ''x'' ''y'' 1 None) 1 2
     = Inr \<lparr>tr_item = ''x'', tr_recipe = ''rx'', tr_rate = 1, tr_machines = 2 / 5,
            tr_time = 1 / 2,
            tr_children = [RecipeChild ''y'' 1 ''ry'' (2 / 5) (1 / 2)
               [RecipeChild ''x'' 1 ''rx'' (2 / 5) (1 / 2) []]]\<rparr>
   \<and> map_sum (\<lambda>e. e) tree_repeats
        (generateRecipeTree (cycle_data ''rx'' ''ry'' ''x'' ''y'' 1 1 None None)
           (cycle_x ''rx'' ''x'' ''y'' 1 None) 1 5)
     = Inr True"
  by (simp add: generateRecipeTree.simps findRecipeForItem_def cycle_data_def
      cycle_x_def or_default_def Let_def ceil2_def round2_def tree_repeats_def)




lemma relabel_start_ok: "sankey_ok relabel_start"
  by (simp add: sankey_ok_def relabel_start_def sankey_empty_def sk_addNode_def sk_addLink_def
      Let_def nth_Cons split: nat.splits)

text \<open>
  C9, as the code has it. Whenever the flow builder processes an ingredient of a recipe
  on a state whose \<^verbatim>\<open>nodeMap\<close> indexes its nodes, it returns, and: if the recipe is below
  the depth limit and nothing produces the ingredient, the node of the ingredient has the
  type \<open>raw\<close> afterwards, whatever type it had; if the recipe is at the depth limit, no
  node that existed changes its type and a new node for the ingredient has the type
  \<open>item\<close>, producer or not; and a node of type \<open>raw\<close> keeps it.
\<close>

theorem flow_raw_labels:
  "sankey_ok s \<longrightarrow>
     (\<exists>s'. sankey_ingredient fd depth currentDepth visited rate outputAmount recipeNodeId
              ingredient s = Inr s'
        \<and> sankey_ok s'
        \<and> (currentDepth < depth \<and> findRecipeForItem fd (ing_name ingredient) = None
             \<longrightarrow> sk_type s' (ing_name ingredient) = Some TRaw)
        \<and> (depth \<le> currentDepth
             \<longrightarrow> (\<forall>name. sk_nodeMap s name \<noteq> None \<longrightarrow> sk_type s' name = sk_type s name)
               \<and> (sk_nodeMap s (ing_name ingredient) = None
                    \<longrightarrow> sk_type s' (ing_name ingredient) = Some TItem))
        \<and> (\<forall>name. sk_type s name = Some TRaw \<longrightarrow> sk_type s' name = Some TRaw))"
proof
  assume ok: "sankey_ok s"
  from sankey_ingredient_extends[OF ok, of fd depth currentDepth visited rate outputAmount
      recipeNodeId ingredient]
  obtain s' where s': "sankey_ingredient fd depth currentDepth visited rate outputAmount
      recipeNodeId ingredient s = Inr s'" "sankey_ok s'" "sk_extends s s'"
    by blast
  have raw: "sk_type s' (ing_name ingredient) = Some TRaw"
    if "currentDepth < depth \<and> findRecipeForItem fd (ing_name ingredient) = None"
    using sankey_ingredient_raw[OF ok, of currentDepth depth fd ingredient visited rate
        outputAmount recipeNodeId] that s'(1)
    by auto
  have limit: "(\<forall>name. sk_nodeMap s name \<noteq> None \<longrightarrow> sk_type s' name = sk_type s name)
      \<and> (sk_nodeMap s (ing_name ingredient) = None
           \<longrightarrow> sk_type s' (ing_name ingredient) = Some TItem)"
    if "depth \<le> currentDepth"
    using sankey_ingredient_at_limit[OF ok that, of fd visited rate outputAmount recipeNodeId
        ingredient] s'(1)
    by auto
  have keep: "\<forall>name. sk_type s name = Some TRaw \<longrightarrow> sk_type s' name = Some TRaw"
    using raw_persists[OF ok s'(3)] by blast
  show "\<exists>s'. sankey_ingredient fd depth currentDepth visited rate outputAmount recipeNodeId
              ingredient s = Inr s'
        \<and> sankey_ok s'
        \<and> (currentDepth < depth \<and> findRecipeForItem fd (ing_name ingredient) = None
             \<longrightarrow> sk_type s' (ing_name ingredient) = Some TRaw)
        \<and> (depth \<le> currentDepth
             \<longrightarrow> (\<forall>name. sk_nodeMap s name \<noteq> None \<longrightarrow> sk_type s' name = sk_type s name)
               \<and> (sk_nodeMap s (ing_name ingredient) = None
                    \<longrightarrow> sk_type s' (ing_name ingredient) = Some TItem))
        \<and> (\<forall>name. sk_type s name = Some TRaw \<longrightarrow> sk_type s' name = Some TRaw)"
    apply (rule exI[of _ s'])
    using s'(1,2) raw limit keep by simp
qed

text \<open>
  The theorem of C9 on the example: \<open>c\<close> processed below the limit becomes \<open>raw\<close>, and
  then \<open>b\<close> processed at the limit is a new \<open>item\<close> and changes neither \<open>t\<close> nor \<open>c\<close>.
\<close>

theorem flow_raw_labels_witness:
  "sankey_ok relabel_start
   \<and> (0::int) < 1
   \<and> findRecipeForItem (relabel_data [ing_b, ing_c]) (ing_name ing_c) = None
   \<and> (\<exists>s'. sankey_ingredient (relabel_data [ing_b, ing_c]) 1 0 {''t''} 1 1 0 ing_c relabel_start
            = Inr s'
        \<and> sankey_ok s'
        \<and> sk_type s' ''c'' = Some TRaw
        \<and> sk_nodeMap s' ''t'' \<noteq> None
        \<and> sk_nodeMap s' (ing_name ing_b) = None
        \<and> (\<exists>s''. sankey_ingredient (relabel_data [ing_b, ing_c]) 0 0 {''t''} 1 1 0 ing_b s'
              = Inr s''
            \<and> sk_type s'' ''t'' = sk_type s' ''t''
            \<and> sk_type s'' ''b'' = Some TItem
            \<and> sk_type s'' ''c'' = Some TRaw))"
proof -
  let ?fd = "relabel_data [ing_b, ing_c]"
  have none: "findRecipeForItem ?fd (ing_name ing_c) = None"
    by (simp add: flow_eval)
  have names: "ing_name ing_c = ''c''" "ing_name ing_b = ''b''"
    by (simp_all add: ing_b_def ing_c_def)
  from flow_raw_labels[of relabel_start ?fd 1 0 "{''t''}" 1 1 0 ing_c] relabel_start_ok none
  obtain s' where s': "sankey_ingredient ?fd 1 0 {''t''} 1 1 0 ing_c relabel_start = Inr s'"
    "sankey_ok s'" "sk_type s' ''c'' = Some TRaw"
    by (auto simp: names)
  have "map_sum (\<lambda>e. e) (\<lambda>s. (sk_nodeMap s ''t'', sk_nodeMap s ''b''))
      (sankey_ingredient ?fd 1 0 {''t''} 1 1 0 ing_c relabel_start) = Inr (Some 1, None)"
    by (simp add: flow_eval)
  with s'(1) have maps: "sk_nodeMap s' ''t'' \<noteq> None" "sk_nodeMap s' ''b'' = None"
    by simp_all
  from flow_raw_labels[of s' ?fd 0 0 "{''t''}" 1 1 0 ing_b] s'(2,3) maps
  obtain s'' where "sankey_ingredient ?fd 0 0 {''t''} 1 1 0 ing_b s' = Inr s''"
    "sk_type s'' ''t'' = sk_type s' ''t''" "sk_type s'' ''b'' = Some TItem"
    "sk_type s'' ''c'' = Some TRaw"
    by (auto simp: names)
  with s' maps none relabel_start_ok show ?thesis
    by (simp add: names)
qed

text \<open>
  C9 as the specification states it fails. With the ingredients \<open>b\<close>, \<open>c\<close> and the depth 1,
  item \<open>c\<close>, which nothing produces, is discovered at the depth limit below \<open>b\<close> and is
  labelled \<open>item\<close> there, not \<open>raw\<close>; when it is reached again as an ingredient of the
  target, the earlier label is corrected to \<open>raw\<close>. With the ingredients in the other order
  the final types are the same, and with the depth 0 item \<open>c\<close> stays an \<open>item\<close>.
\<close>

theorem flow_relabel_counterexample:
  "map_sum (\<lambda>e. e) (\<lambda>s. node_labels (sk_nodes s))
     (forEachE (sankey_ingredient (relabel_data [ing_b, ing_c]) 1 0 {''t''} 1 1 0)
        [ing_b] relabel_start)
     = Inr [(''Recipe: t'', TRecipe), (''t'', TItem), (''b'', TItem),
            (''Recipe: b'', TRecipe), (''c'', TItem)]
   \<and> map_sum (\<lambda>e. e) (\<lambda>s. node_labels (sk_nodes s))
     (forEachE (sankey_ingredient (relabel_data [ing_b, ing_c]) 1 0 {''t''} 1 1 0)
        [ing_b, ing_c] relabel_start)
     = Inr [(''Recipe: t'', TRecipe), (''t'', TItem), (''b'', TItem),
            (''Recipe: b'', TRecipe), (''c'', TRaw)]
   \<and> map_sum (\<lambda>e. e) (\<lambda>sd. node_labels (sd_nodes sd))
     (generateSankeyData (relabel_data [ing_b, ing_c]) (relabel_recipe [ing_b, ing_c]) 1 1)
     = Inr [(''Recipe: t'', TRecipe), (''t'', TItem), (''b'', TItem),
            (''Recipe: b'', TRecipe), (''c'', TRaw)]
   \<and> map_sum (\<lambda>e. e) (\<lambda>sd. node_labels (sd_nodes sd))
     (generateSankeyData (relabel_data [ing_c, ing_b]) (relabel_recipe [ing_c, ing_b]) 1 1)
     = Inr [(''Recipe: t'', TRecipe), (''t'', TItem), (''c'', TRaw), (''b'', TItem),
            (''Recipe: b'', TRecipe)]
   \<and> map_sum (\<lambda>e. e) (\<lambda>sd. node_labels (sd_nodes sd))
     (generateSankeyData (relabel_data [ing_b, ing_c]) (relabel_recipe [ing_b, ing_c]) 1 0)
     = Inr [(''Recipe: t'', TRecipe), (''t'', TItem), (''b'', TItem), (''c'', TItem)]
   \<and> findRecipeForItem (relabel_data [ing_b, ing_c]) ''c'' = None"
  by (simp add: flow_eval)

section \<open>The claim about failure\<close>

subsection \<open>Every ingredient of the target's recipe is in the demand\<close>




lemma sort_by_rate_desc_set [simp]: "set (sort_by_rate_desc xs) = set xs"
  by (simp add: sort_by_rate_desc_def)






section \<open>The claims about the knowledge graph\<close>

subsection \<open>Invariants of the exploration\<close>

text \<open>
  Whatever holds of the state and is kept by \<^verbatim>\<open>addNode\<close>, for the ids of the seed and of
  the recipes and items of the dataset, and by \<^verbatim>\<open>addLink\<close>, holds after \<^verbatim>\<open>exploreItem\<close>.
\<close>

lemma fold_inv:
  "Inv s \<Longrightarrow> (\<And>x s. x \<in> set xs \<Longrightarrow> Inv s \<Longrightarrow> Inv (f x s)) \<Longrightarrow> Inv (fold f xs s)"
  by (induction xs arbitrary: s) auto

lemma exploreItem_preserves:
  assumes node: "\<And>nodeId ty name props s. Q nodeId \<Longrightarrow> Inv s
                   \<Longrightarrow> Inv (sg_addNode nodeId ty name props s)"
    and link: "\<And>a b rel amt s. Inv s \<Longrightarrow> Inv (sg_addLink a b rel amt s)"
  shows "(\<And>r. r \<in> set (recipes fd) \<Longrightarrow> Q (recipe_id (key r))
            \<and> (\<forall>i\<in>set (ingredients r). Q (item_id (ing_name i)))
            \<and> (\<forall>x\<in>set (results r). Q (item_id (res_name x))))
     \<Longrightarrow> Q (item_id itemName) \<Longrightarrow> Inv s
     \<Longrightarrow> Inv (exploreItem fd maxDepth itemName currentDepth visited s)"
proof (induction fd maxDepth itemName currentDepth visited s rule: exploreItem.induct)
  case (1 fd maxDepth itemName currentDepth visited s)
  note data = "1.prems"(1)
  show ?case
  proof (cases "currentDepth > maxDepth \<or> itemName \<in> visited")
    case True
    then show ?thesis
      using "1.prems"(3) by (auto simp: exploreItem.simps[of fd maxDepth itemName])
  next
    case False
    then have ngt: "\<not> maxDepth < currentDepth" and nvis: "itemName \<notin> visited" by auto
    define s0 where "s0 = sg_addNode (item_id itemName) TItem itemName
        (item_properties fd itemName) s"
    have inv0: "Inv s0"
      unfolding s0_def using "1.prems"(2,3) by (rule node)
    have "Inv (fold (\<lambda>recipe s.
             let recipeKey = key recipe;
                 recipeId = recipe_id recipeKey;
                 sp =
                   (if list_ex (\<lambda>result. res_name result = itemName) (results recipe)
                    then
                      let s1 = sg_addNode recipeId TRecipe recipeKey (recipe_properties recipe) s;
                          outputAmount = result_amount_of itemName (results recipe);
                          s2 = sg_addLink recipeId (item_id itemName) Produces outputAmount s1
                      in fold (\<lambda>ingredient s.
                           let ingredientId = item_id (ing_name ingredient);
                               s3 = sg_addNode ingredientId TItem (ing_name ingredient)
                                      (item_properties fd (ing_name ingredient)) s;
                               s4 = sg_addLink ingredientId recipeId ConsumedBy
                                      (ing_amount ingredient) s3
                           in if currentDepth < maxDepth
                              then exploreItem fd maxDepth (ing_name ingredient)
                                     (currentDepth + 1) (insert itemName visited) s4
                              else s4)
                         (ingredients recipe) s2
                    else s)
             in if list_ex (\<lambda>ingredient. ing_name ingredient = itemName) (ingredients recipe)
                then
                  let s5 = sg_addNode recipeId TRecipe recipeKey (recipe_properties recipe) sp;
                      inputAmount = ingredient_amount_of itemName (ingredients recipe);
                      s6 = sg_addLink (item_id itemName) recipeId ConsumedBy inputAmount s5
                  in fold (\<lambda>result s.
                       let productId = item_id (res_name result);
                           s7 = sg_addNode productId TItem (res_name result)
                                  (item_properties fd (res_name result)) s;
                           s8 = sg_addLink recipeId productId Produces
                                  (or_default (res_amount result) 1) s7
                       in if currentDepth < maxDepth
                          then exploreItem fd maxDepth (res_name result)
                                 (currentDepth + 1) (insert itemName visited) s8
                          else s8)
                     (results recipe) s6
                else sp)
           (recipes fd) s0)"
    proof (rule fold_inv[of Inv], goal_cases)
      case 1
      show ?case by (rule inv0)
    next
      case (2 recipe t)
      note r = 2(1)
      note invt = 2(2)
      from data[OF r] have qr: "Q (recipe_id (key recipe))"
        and qi: "\<And>i. i \<in> set (ingredients recipe) \<Longrightarrow> Q (item_id (ing_name i))"
        and qx: "\<And>x. x \<in> set (results recipe) \<Longrightarrow> Q (item_id (res_name x))"
        by auto
      define sp where "sp =
                   (if list_ex (\<lambda>result. res_name result = itemName) (results recipe)
                    then
                      let s1 = sg_addNode (recipe_id (key recipe)) TRecipe (key recipe)
                                 (recipe_properties recipe) t;
                          outputAmount = result_amount_of itemName (results recipe);
                          s2 = sg_addLink (recipe_id (key recipe)) (item_id itemName)
                                 Produces outputAmount s1
                      in fold (\<lambda>ingredient s.
                           let ingredientId = item_id (ing_name ingredient);
                               s3 = sg_addNode ingredientId TItem (ing_name ingredient)
                                      (item_properties fd (ing_name ingredient)) s;
                               s4 = sg_addLink ingredientId (recipe_id (key recipe)) ConsumedBy
                                      (ing_amount ingredient) s3
                           in if currentDepth < maxDepth
                              then exploreItem fd maxDepth (ing_name ingredient)
                                     (currentDepth + 1) (insert itemName visited) s4
                              else s4)
                         (ingredients recipe) s2
                    else t)"
      have invp: "Inv sp"
      proof (cases "list_ex (\<lambda>result. res_name result = itemName) (results recipe)")
        case False
        then show ?thesis using invt by (simp add: sp_def)
      next
        case produces: True
        have "Inv (fold (\<lambda>ingredient s.
                           let ingredientId = item_id (ing_name ingredient);
                               s3 = sg_addNode ingredientId TItem (ing_name ingredient)
                                      (item_properties fd (ing_name ingredient)) s;
                               s4 = sg_addLink ingredientId (recipe_id (key recipe)) ConsumedBy
                                      (ing_amount ingredient) s3
                           in if currentDepth < maxDepth
                              then exploreItem fd maxDepth (ing_name ingredient)
                                     (currentDepth + 1) (insert itemName visited) s4
                              else s4)
                         (ingredients recipe)
                 (sg_addLink (recipe_id (key recipe)) (item_id itemName) Produces
                    (result_amount_of itemName (results recipe))
                    (sg_addNode (recipe_id (key recipe)) TRecipe (key recipe)
                       (recipe_properties recipe) t)))"
        proof (rule fold_inv[of Inv], goal_cases)
          case 1
          show ?case using \<open>Inv t\<close> qr by (intro link node)
        next
          case (2 i u)
          have inv4: "Inv (sg_addLink (item_id (ing_name i)) (recipe_id (key recipe))
              ConsumedBy (ing_amount i)
              (sg_addNode (item_id (ing_name i)) TItem (ing_name i)
                 (item_properties fd (ing_name i)) u))"
            using 2(2) qi[OF 2(1)] by (intro link node)
          show ?case
          proof (cases "currentDepth < maxDepth")
            case False
            then show ?thesis using inv4 by (simp add: Let_def)
          next
            case True
            from "1.IH"(1)[OF ngt nvis refl refl refl r refl refl produces refl refl refl 2(1)
                refl refl refl True data qi[OF 2(1)] inv4]
            show ?thesis using True by (simp add: Let_def)
          qed
        qed
        then show ?thesis using produces by (simp add: sp_def Let_def)
      qed
      show ?case
      proof (cases "list_ex (\<lambda>ingredient. ing_name ingredient = itemName) (ingredients recipe)")
        case False
        then show ?thesis using invp by (simp add: Let_def sp_def)
      next
        case consumes: True
        have "Inv (fold (\<lambda>result s.
                       let productId = item_id (res_name result);
                           s7 = sg_addNode productId TItem (res_name result)
                                  (item_properties fd (res_name result)) s;
                           s8 = sg_addLink (recipe_id (key recipe)) productId Produces
                                  (or_default (res_amount result) 1) s7
                       in if currentDepth < maxDepth
                          then exploreItem fd maxDepth (res_name result)
                                 (currentDepth + 1) (insert itemName visited) s8
                          else s8)
                     (results recipe)
                 (sg_addLink (item_id itemName) (recipe_id (key recipe)) ConsumedBy
                    (ingredient_amount_of itemName (ingredients recipe))
                    (sg_addNode (recipe_id (key recipe)) TRecipe (key recipe)
                       (recipe_properties recipe) sp)))"
        proof (rule fold_inv[of Inv], goal_cases)
          case 1
          show ?case using invp qr by (intro link node)
        next
          case (2 x u)
          have inv8: "Inv (sg_addLink (recipe_id (key recipe)) (item_id (res_name x))
              Produces (or_default (res_amount x) 1)
              (sg_addNode (item_id (res_name x)) TItem (res_name x)
                 (item_properties fd (res_name x)) u))"
            using 2(2) qx[OF 2(1)] by (intro link node)
          show ?case
          proof (cases "currentDepth < maxDepth")
            case False
            then show ?thesis using inv8 by (simp add: Let_def)
          next
            case True
            from "1.IH"(2)[OF ngt nvis refl refl refl r refl refl refl consumes refl refl refl
                2(1) refl refl refl True data qx[OF 2(1)] inv8]
            show ?thesis using True by (simp add: Let_def)
          qed
        qed
        then show ?thesis using consumes by (simp add: Let_def sp_def)
      qed
    qed
    then show ?thesis
      using ngt nvis
      by (simp add: exploreItem.simps[of fd maxDepth itemName] Let_def s0_def)
  qed
qed

text \<open>
  The states in which \<^verbatim>\<open>nodeMap\<close> maps the id of every node to its index and every link
  joins two indices of the array of nodes.
\<close>

definition graph_ok :: "graph_state \<Rightarrow> bool" where
  "graph_ok s \<longleftrightarrow>
     (\<forall>nodeId index. g_nodeMap s nodeId = Some index
        \<longleftrightarrow> index < length (g_nodes s) \<and> gn_id (g_nodes s ! index) = nodeId)
   \<and> (\<forall>link\<in>set (g_links s). il_source link < length (g_nodes s)
                              \<and> il_target link < length (g_nodes s))"

definition graph_empty :: graph_state where
  "graph_empty = \<lparr>g_nodes = [], g_links = [], g_nodeMap = Map.empty\<rparr>"

lemma graph_empty_ok: "graph_ok graph_empty"
  by (simp add: graph_ok_def graph_empty_def)

lemma graph_ok_nth:
  "graph_ok s \<Longrightarrow> i < length (g_nodes s) \<Longrightarrow> g_nodeMap s (gn_id (g_nodes s ! i)) = Some i"
  by (simp add: graph_ok_def)

lemma graph_ok_Some:
  "graph_ok s \<Longrightarrow> g_nodeMap s n = Some i \<Longrightarrow> i < length (g_nodes s) \<and> gn_id (g_nodes s ! i) = n"
  by (simp add: graph_ok_def)

lemma graph_ok_append:
  assumes ok: "graph_ok s" and new: "g_nodeMap s nodeId = None" and nid: "gn_id node = nodeId"
  shows "graph_ok (s\<lparr>g_nodes := g_nodes s @ [node],
                     g_nodeMap := (g_nodeMap s)(nodeId \<mapsto> length (g_nodes s))\<rparr>)"
proof -
  let ?s' = "s\<lparr>g_nodes := g_nodes s @ [node],
               g_nodeMap := (g_nodeMap s)(nodeId \<mapsto> length (g_nodes s))\<rparr>"
  have "(g_nodeMap ?s' m = Some j) = (j < length (g_nodes ?s') \<and> gn_id (g_nodes ?s' ! j) = m)"
    for m j
  proof -
    consider "j < length (g_nodes s)" | "j = length (g_nodes s)" | "j > length (g_nodes s)"
      by linarith
    then show ?thesis
    proof cases
      case 1
      then have nth: "g_nodes ?s' ! j = g_nodes s ! j" by (simp add: nth_append)
      show ?thesis
      proof (cases "m = nodeId")
        case True
        have "gn_id (g_nodes s ! j) \<noteq> nodeId"
          using graph_ok_nth[OF ok 1] new by auto
        then show ?thesis using True 1 nth by simp
      next
        case False
        then show ?thesis using ok 1 nth by (simp add: graph_ok_def)
      qed
    next
      case 2
      have "g_nodeMap s m \<noteq> Some (length (g_nodes s))"
        using graph_ok_Some[OF ok, of m "length (g_nodes s)"] by auto
      then show ?thesis using 2 nid by auto
    next
      case 3
      have "g_nodeMap s m \<noteq> Some j"
        using graph_ok_Some[OF ok, of m j] 3 by auto
      then show ?thesis using 3 by auto
    qed
  qed
  moreover have "\<forall>link\<in>set (g_links ?s'). il_source link < length (g_nodes ?s')
                              \<and> il_target link < length (g_nodes ?s')"
    using ok by (auto simp: graph_ok_def)
  ultimately show ?thesis unfolding graph_ok_def by blast
qed

lemma sg_addNode_ok: "graph_ok s \<Longrightarrow> graph_ok (sg_addNode nodeId ty name props s)"
  by (cases "g_nodeMap s nodeId") (simp_all add: sg_addNode_def Let_def graph_ok_append)

lemma cg_addNode_ok: "graph_ok s \<Longrightarrow> graph_ok (cg_addNode nodeId ty name props s)"
  by (cases "g_nodeMap s nodeId") (simp_all add: cg_addNode_def Let_def graph_ok_append)

lemma sg_addLink_ok: "graph_ok s \<Longrightarrow> graph_ok (sg_addLink a b rel amt s)"
  by (auto simp: sg_addLink_def graph_ok_def Let_def split: option.splits)

lemma cg_addLink_ok: "graph_ok s \<Longrightarrow> graph_ok (cg_addLink a b rel amt s)"
  by (auto simp: cg_addLink_def graph_ok_def split: option.splits)

lemma exploreItem_ok:
  "graph_ok s \<Longrightarrow> graph_ok (exploreItem fd maxDepth itemName currentDepth visited s)"
  by (rule exploreItem_preserves[where Q = "\<lambda>_. True" and Inv = graph_ok])
     (simp_all add: sg_addNode_ok sg_addLink_ok)

lemma mapE_map:
  "(\<And>x. x \<in> set xs \<Longrightarrow> f x = Inr (g x)) \<Longrightarrow> mapE f xs = Inr (map g xs)"
  by (induction xs) simp_all

definition resolved :: "graph_node list \<Rightarrow> rat \<Rightarrow> index_link \<Rightarrow> graph_link" where
  "resolved nodes amount link =
     \<lparr>gl_source = gn_id (nodes ! il_source link), gl_target = gn_id (nodes ! il_target link),
      gl_relationship = il_relationship link, gl_amount = amount\<rparr>"

lemma resolve_links:
  assumes "graph_ok s"
  shows "mapE (\<lambda>link. resolve_link (g_nodes s) (f link) link) (g_links s)
     = Inr (map (\<lambda>link. resolved (g_nodes s) (f link) link) (g_links s))"
  using assms by (intro mapE_map) (auto simp: resolve_link_def resolved_def graph_ok_def)

lemma generateItemSubgraph_eq:
  "generateItemSubgraph fd itemName maxDepth =
     (let s = exploreItem fd maxDepth itemName 0 {} graph_empty
      in Inr \<lparr>gr_nodes = map (\<lambda>node. node\<lparr>gn_index := None\<rparr>) (g_nodes s),
              gr_links = map (\<lambda>link. resolved (g_nodes s)
                            (or_default (Some (il_amount link)) 1) link) (g_links s)\<rparr>)"
  using resolve_links[OF exploreItem_ok[OF graph_empty_ok, of fd maxDepth itemName 0 "{}"],
      of "\<lambda>link. or_default (Some (il_amount link)) 1"]
  by (simp add: generateItemSubgraph_def Let_def graph_empty_def)

lemma fold_unchanged:
  "(\<And>x t. x \<in> set xs \<Longrightarrow> f x t = t) \<Longrightarrow> fold f xs s = s"
  by (induction xs arbitrary: s) simp_all

lemma exploreItem_isolated:
  assumes "0 \<le> maxDepth"
    and "\<forall>r\<in>set (recipes fd). itemName \<notin> res_name ` set (results r)
            \<and> itemName \<notin> ing_name ` set (ingredients r)"
  shows "exploreItem fd maxDepth itemName 0 {} s
     = sg_addNode (item_id itemName) TItem itemName (item_properties fd itemName) s"
proof -
  have no: "\<not> list_ex (\<lambda>result. res_name result = itemName) (results r)"
    "\<not> list_ex (\<lambda>ingredient. ing_name ingredient = itemName) (ingredients r)"
    if "r \<in> set (recipes fd)" for r
    using assms(2) that by (auto simp: list_ex_iff)
  show ?thesis
    unfolding exploreItem.simps[of fd maxDepth itemName 0] Let_def
    using assms(1) by (simp add: fold_unchanged no)
qed

lemma exploreItem_negative:
  "maxDepth < 0 \<Longrightarrow> exploreItem fd maxDepth itemName 0 {} s = s"
  by (simp add: exploreItem.simps[of fd maxDepth itemName 0])

lemma graph_ok_dom:
  assumes "graph_ok s"
  shows "g_nodeMap s n \<noteq> None \<longleftrightarrow> n \<in> gn_id ` set (g_nodes s)"
proof
  assume "g_nodeMap s n \<noteq> None"
  then obtain i where "g_nodeMap s n = Some i" by auto
  from graph_ok_Some[OF assms this] show "n \<in> gn_id ` set (g_nodes s)"
    using nth_mem by force
next
  assume "n \<in> gn_id ` set (g_nodes s)"
  then obtain i where "i < length (g_nodes s)" "gn_id (g_nodes s ! i) = n"
    by (auto simp: in_set_conv_nth)
  with graph_ok_nth[OF assms this(1)] show "g_nodeMap s n \<noteq> None" by simp
qed

lemma graph_ok_distinct:
  assumes "graph_ok s"
  shows "distinct (map gn_id (g_nodes s))"
  unfolding distinct_conv_nth
proof (intro allI impI)
  fix i j
  assume i: "i < length (map gn_id (g_nodes s))" and j: "j < length (map gn_id (g_nodes s))"
    and ne: "i \<noteq> j"
  show "map gn_id (g_nodes s) ! i \<noteq> map gn_id (g_nodes s) ! j"
  proof
    assume "map gn_id (g_nodes s) ! i = map gn_id (g_nodes s) ! j"
    then have "gn_id (g_nodes s ! i) = gn_id (g_nodes s ! j)" using i j by simp
    moreover have "g_nodeMap s (gn_id (g_nodes s ! i)) = Some i"
      using graph_ok_nth[OF assms] i by simp
    moreover have "g_nodeMap s (gn_id (g_nodes s ! j)) = Some j"
      using graph_ok_nth[OF assms] j by simp
    ultimately show False using ne by simp
  qed
qed

text \<open>
  C10, as the code has it. \<^verbatim>\<open>generateItemSubgraph\<close> returns a graph for every dataset,
  seed and depth: it never signals failure. For a seed that no recipe produces and no
  recipe consumes and a depth that is not negative (the default is 2), the graph has
  exactly one node, the seed item, and no links; for a negative depth the graph is empty.
\<close>

theorem isolated_seed_subgraph:
  "(\<exists>g. generateItemSubgraph fd itemName maxDepth = Inr g)
   \<and> (0 \<le> maxDepth
        \<and> (\<forall>r\<in>set (recipes fd). itemName \<notin> res_name ` set (results r)
                                  \<and> itemName \<notin> ing_name ` set (ingredients r))
      \<longrightarrow> generateItemSubgraph fd itemName maxDepth
          = Inr \<lparr>gr_nodes = [\<lparr>gn_id = item_id itemName, gn_type = TItem,
                               gn_name = (if itemName = [] then item_id itemName else itemName),
                               gn_properties = item_properties fd itemName,
                               gn_index = None\<rparr>],
                 gr_links = []\<rparr>)
   \<and> (maxDepth < 0
      \<longrightarrow> generateItemSubgraph fd itemName maxDepth = Inr \<lparr>gr_nodes = [], gr_links = []\<rparr>)"
proof (intro conjI impI)
  show "\<exists>g. generateItemSubgraph fd itemName maxDepth = Inr g"
    by (simp add: generateItemSubgraph_eq Let_def)
next
  assume a: "0 \<le> maxDepth
        \<and> (\<forall>r\<in>set (recipes fd). itemName \<notin> res_name ` set (results r)
                                  \<and> itemName \<notin> ing_name ` set (ingredients r))"
  then have "exploreItem fd maxDepth itemName 0 {} graph_empty
     = sg_addNode (item_id itemName) TItem itemName (item_properties fd itemName) graph_empty"
    by (intro exploreItem_isolated) auto
  then show "generateItemSubgraph fd itemName maxDepth
          = Inr \<lparr>gr_nodes = [\<lparr>gn_id = item_id itemName, gn_type = TItem,
                               gn_name = (if itemName = [] then item_id itemName else itemName),
                               gn_properties = item_properties fd itemName,
                               gn_index = None\<rparr>],
                 gr_links = []\<rparr>"
    by (simp add: generateItemSubgraph_eq Let_def sg_addNode_def graph_empty_def)
next
  assume "maxDepth < 0"
  then show "generateItemSubgraph fd itemName maxDepth = Inr \<lparr>gr_nodes = [], gr_links = []\<rparr>"
    by (simp add: generateItemSubgraph_eq Let_def exploreItem_negative graph_empty_def)
qed

text \<open>
  The theorem of C10 at the worked example and the seed \<open>ore\<close>, for the depths 2 and -1.
\<close>

theorem isolated_seed_subgraph_witness:
  "(0::int) \<le> 2
   \<and> set (recipes worked_data) = {worked_recipe}
   \<and> ''ore'' \<notin> res_name ` set (results worked_recipe)
   \<and> ''ore'' \<notin> ing_name ` set (ingredients worked_recipe)
   \<and> (\<exists>g. generateItemSubgraph worked_data ''ore'' 2 = Inr g)
   \<and> generateItemSubgraph worked_data ''ore'' 2
       = Inr \<lparr>gr_nodes = [\<lparr>gn_id = ''item:ore'', gn_type = TItem, gn_name = ''ore'',
                            gn_properties = no_properties, gn_index = None\<rparr>],
              gr_links = []\<rparr>
   \<and> (- 1 :: int) < 0
   \<and> generateItemSubgraph worked_data ''ore'' (- 1) = Inr \<lparr>gr_nodes = [], gr_links = []\<rparr>"
proof -
  have d: "set (recipes worked_data) = {worked_recipe}"
    "''ore'' \<notin> res_name ` set (results worked_recipe)"
    "''ore'' \<notin> ing_name ` set (ingredients worked_recipe)"
    by (simp_all add: worked_data_def worked_recipe_def)
  have p: "item_properties worked_data ''ore'' = no_properties" "item_id ''ore'' = ''item:ore''"
    by (simp_all add: item_properties_def worked_data_def no_properties_def item_id_def)
  show ?thesis
    using isolated_seed_subgraph[of worked_data "''ore''" 2]
      isolated_seed_subgraph[of worked_data "''ore''" "- 1"] d
    by (simp add: p)
qed

text \<open>
  C10 as it is stated, for every call, fails at a negative depth, which the route
  /item-graph passes on as it parses it: the graph of the seed \<open>ore\<close>, which no recipe
  produces or consumes, has no node at all.
\<close>

theorem negative_depth_counterexample:
  "generateItemSubgraph worked_data ''ore'' (- 1) = Inr \<lparr>gr_nodes = [], gr_links = []\<rparr>
   \<and> \<not> list_ex (\<lambda>r. list_ex (\<lambda>x. res_name x = ''ore'') (results r)
                    \<or> list_ex (\<lambda>i. ing_name i = ''ore'') (ingredients r))
          (recipes worked_data)"
  by (simp add: generateItemSubgraph_def exploreItem.simps worked_data_def
      worked_recipe_def)

subsection \<open>The complete graph\<close>

lemma cg_addNode_ids:
  assumes "graph_ok s"
  shows "gn_id ` set (g_nodes (cg_addNode nodeId ty name props s))
     = insert nodeId (gn_id ` set (g_nodes s))"
    and "g_links (cg_addNode nodeId ty name props s) = g_links s"
proof -
  show "gn_id ` set (g_nodes (cg_addNode nodeId ty name props s))
     = insert nodeId (gn_id ` set (g_nodes s))"
  proof (cases "g_nodeMap s nodeId")
    case None
    then show ?thesis by (simp add: cg_addNode_def Let_def)
  next
    case (Some i)
    then have "nodeId \<in> gn_id ` set (g_nodes s)"
      using graph_ok_dom[OF assms, of nodeId] by simp
    then show ?thesis using Some by (auto simp: cg_addNode_def)
  qed
  show "g_links (cg_addNode nodeId ty name props s) = g_links s"
    by (simp add: cg_addNode_def Let_def split: option.splits)
qed

lemma cg_addLink_count:
  assumes "graph_ok s" "a \<in> gn_id ` set (g_nodes s)" "b \<in> gn_id ` set (g_nodes s)"
  shows "g_nodes (cg_addLink a b rel amt s) = g_nodes s"
    and "length (g_links (cg_addLink a b rel amt s)) = Suc (length (g_links s))"
proof -
  from assms obtain i j where "g_nodeMap s a = Some i" "g_nodeMap s b = Some j"
    using graph_ok_dom[OF assms(1)] by (metis not_None_eq)
  then show "g_nodes (cg_addLink a b rel amt s) = g_nodes s"
    and "length (g_links (cg_addLink a b rel amt s)) = Suc (length (g_links s))"
    by (simp_all add: cg_addLink_def)
qed

text \<open>A loop each of whose steps adds one id and one link.\<close>

lemma fold_adds:
  assumes step: "\<And>x s. x \<in> set xs \<Longrightarrow> G s \<Longrightarrow>
      G (f x s) \<and> gn_id ` set (g_nodes (f x s)) = insert (h x) (gn_id ` set (g_nodes s))
      \<and> length (g_links (f x s)) = Suc (length (g_links s))"
    and "G s"
  shows "G (fold f xs s)
     \<and> gn_id ` set (g_nodes (fold f xs s)) = gn_id ` set (g_nodes s) \<union> h ` set xs
     \<and> length (g_links (fold f xs s)) = length (g_links s) + length xs"
  using assms
proof (induction xs arbitrary: s)
  case Nil
  then show ?case by simp
next
  case (Cons x xs)
  from Cons.prems(1)[of x s] Cons.prems(2)
  have s1: "G (f x s)"
    "gn_id ` set (g_nodes (f x s)) = insert (h x) (gn_id ` set (g_nodes s))"
    "length (g_links (f x s)) = Suc (length (g_links s))"
    by simp_all
  from Cons.IH[of "f x s"] Cons.prems(1) s1(1)
  have "G (fold f xs (f x s))
     \<and> gn_id ` set (g_nodes (fold f xs (f x s))) = gn_id ` set (g_nodes (f x s)) \<union> h ` set xs
     \<and> length (g_links (fold f xs (f x s))) = length (g_links (f x s)) + length xs"
    by simp
  with s1 show ?case by auto
qed

definition recipe_items :: "recipe \<Rightarrow> string set" where
  "recipe_items r = res_name ` set (results r) \<union> ing_name ` set (ingredients r)"

lemma cg_recipe_counts:
  assumes ok: "graph_ok s"
  shows "graph_ok (cg_recipe r s)
     \<and> gn_id ` set (g_nodes (cg_recipe r s))
         = gn_id ` set (g_nodes s) \<union> insert (recipe_id (key r)) (item_id ` recipe_items r)
     \<and> length (g_links (cg_recipe r s))
         = length (g_links s) + (length (ingredients r) + length (results r))"
proof -
  let ?rid = "recipe_id (key r)"
  let ?G = "\<lambda>s. graph_ok s \<and> ?rid \<in> gn_id ` set (g_nodes s)"
  define s1 where "s1 = cg_addNode ?rid TRecipe (key r) (recipe_properties r) s"
  let ?fr = "\<lambda>result s.
                 let itemId = item_id (res_name result);
                     s' = cg_addNode itemId TItem (res_name result) no_properties s
                 in cg_addLink ?rid itemId Produces (or_default (res_amount result) 1) s'"
  let ?fi = "\<lambda>ingredient s.
            let itemId = item_id (ing_name ingredient);
                s' = cg_addNode itemId TItem (ing_name ingredient) no_properties s
            in cg_addLink itemId ?rid ConsumedBy (ing_amount ingredient) s'"
  define s2 where "s2 = fold ?fr (results r) s1"
  have g1: "?G s1" and ids1: "gn_id ` set (g_nodes s1) = insert ?rid (gn_id ` set (g_nodes s))"
    and l1: "g_links s1 = g_links s"
    using cg_addNode_ok[OF ok] cg_addNode_ids[OF ok] by (simp_all add: s1_def)
  have stepr: "?G (?fr x t) \<and> gn_id ` set (g_nodes (?fr x t))
        = insert (item_id (res_name x)) (gn_id ` set (g_nodes t))
      \<and> length (g_links (?fr x t)) = Suc (length (g_links t))"
    if "?G t" for x :: result and t
  proof -
    let ?t' = "cg_addNode (item_id (res_name x)) TItem (res_name x) no_properties t"
    have ok': "graph_ok ?t'" using that cg_addNode_ok by simp
    have ids': "gn_id ` set (g_nodes ?t') = insert (item_id (res_name x)) (gn_id ` set (g_nodes t))"
      and l': "g_links ?t' = g_links t"
      using cg_addNode_ids that by simp_all
    have in1: "?rid \<in> gn_id ` set (g_nodes ?t')" and in2: "item_id (res_name x) \<in> gn_id ` set (g_nodes ?t')"
      using ids' that by simp_all
    from cg_addLink_count[OF ok' in1 in2] cg_addLink_ok[OF ok'] ids' l' in1
    show ?thesis by (simp add: Let_def)
  qed
  have stepi: "?G (?fi x t) \<and> gn_id ` set (g_nodes (?fi x t))
        = insert (item_id (ing_name x)) (gn_id ` set (g_nodes t))
      \<and> length (g_links (?fi x t)) = Suc (length (g_links t))"
    if "?G t" for x :: ingredient and t
  proof -
    let ?t' = "cg_addNode (item_id (ing_name x)) TItem (ing_name x) no_properties t"
    have ok': "graph_ok ?t'" using that cg_addNode_ok by simp
    have ids': "gn_id ` set (g_nodes ?t') = insert (item_id (ing_name x)) (gn_id ` set (g_nodes t))"
      and l': "g_links ?t' = g_links t"
      using cg_addNode_ids that by simp_all
    have in1: "?rid \<in> gn_id ` set (g_nodes ?t')" and in2: "item_id (ing_name x) \<in> gn_id ` set (g_nodes ?t')"
      using ids' that by simp_all
    from cg_addLink_count[OF ok' in2 in1] cg_addLink_ok[OF ok'] ids' l' in1
    show ?thesis by (simp add: Let_def)
  qed
  have r2: "?G s2
     \<and> gn_id ` set (g_nodes s2) = gn_id ` set (g_nodes s1) \<union> (\<lambda>x. item_id (res_name x)) ` set (results r)
     \<and> length (g_links s2) = length (g_links s1) + length (results r)"
    unfolding s2_def
    by (rule fold_adds[where G = ?G and h = "\<lambda>x. item_id (res_name x)"]) (use stepr g1 in blast)+
  then have g2: "?G s2" by blast
  have r3: "?G (fold ?fi (ingredients r) s2)
     \<and> gn_id ` set (g_nodes (fold ?fi (ingredients r) s2))
         = gn_id ` set (g_nodes s2) \<union> (\<lambda>x. item_id (ing_name x)) ` set (ingredients r)
     \<and> length (g_links (fold ?fi (ingredients r) s2)) = length (g_links s2) + length (ingredients r)"
    by (rule fold_adds[where G = ?G and h = "\<lambda>x. item_id (ing_name x)"]) (use stepi g2 in blast)+
  have eq: "cg_recipe r s = fold ?fi (ingredients r) s2"
    by (simp add: cg_recipe_def Let_def s2_def s1_def)
  from r2 have e2: "gn_id ` set (g_nodes s2)
      = gn_id ` set (g_nodes s1) \<union> (\<lambda>x. item_id (res_name x)) ` set (results r)"
    and n2: "length (g_links s2) = length (g_links s1) + length (results r)"
    by blast+
  from r3 have ok3': "graph_ok (fold ?fi (ingredients r) s2)"
    and e3: "gn_id ` set (g_nodes (fold ?fi (ingredients r) s2))
         = gn_id ` set (g_nodes s2) \<union> (\<lambda>x. item_id (ing_name x)) ` set (ingredients r)"
    and n3: "length (g_links (fold ?fi (ingredients r) s2))
         = length (g_links s2) + length (ingredients r)"
    by blast+
  have ok3: "graph_ok (cg_recipe r s)" unfolding eq by (rule ok3')
  have ids3: "gn_id ` set (g_nodes (cg_recipe r s))
      = insert ?rid (gn_id ` set (g_nodes s)) \<union> (\<lambda>x. item_id (res_name x)) ` set (results r)
          \<union> (\<lambda>x. item_id (ing_name x)) ` set (ingredients r)"
    unfolding eq e3 e2 ids1 by simp
  have l3: "length (g_links (cg_recipe r s))
      = length (g_links s) + length (results r) + length (ingredients r)"
    unfolding eq n3 n2 l1 by simp
  have "item_id ` recipe_items r = (\<lambda>x. item_id (res_name x)) ` set (results r)
          \<union> (\<lambda>x. item_id (ing_name x)) ` set (ingredients r)"
    by (auto simp: recipe_items_def)
  with ok3 ids3 l3 show ?thesis by auto
qed

lemma fold_cg_recipe:
  assumes "graph_ok s"
  shows "graph_ok (fold cg_recipe rs s)
     \<and> gn_id ` set (g_nodes (fold cg_recipe rs s))
         = gn_id ` set (g_nodes s) \<union> recipe_id ` key ` set rs
             \<union> item_id ` (\<Union>r\<in>set rs. recipe_items r)
     \<and> length (g_links (fold cg_recipe rs s))
         = length (g_links s) + (\<Sum>r\<leftarrow>rs. length (ingredients r) + length (results r))"
  using assms
proof (induction rs arbitrary: s)
  case Nil
  then show ?case by simp
next
  case (Cons r rs)
  from cg_recipe_counts[OF Cons.prems, of r]
  have s1: "graph_ok (cg_recipe r s)"
    "gn_id ` set (g_nodes (cg_recipe r s))
         = gn_id ` set (g_nodes s) \<union> insert (recipe_id (key r)) (item_id ` recipe_items r)"
    "length (g_links (cg_recipe r s))
         = length (g_links s) + (length (ingredients r) + length (results r))"
    by simp_all
  from Cons.IH[OF s1(1)] s1(2,3) show ?case
    by (auto simp: image_Un)
qed

lemma id_inj: "inj item_id" "inj recipe_id" "item_id a \<noteq> recipe_id b"
  "recipe_id b \<noteq> item_id a"
  by (auto simp: inj_def item_id_def recipe_id_def)

text \<open>
  C6. For every dataset, whose recipes have distinct keys as the keys of an object do,
  \<^verbatim>\<open>generateCompleteGraph\<close> returns as many nodes as there are recipes and distinct items
  among the ingredients and results, and as many links as there are ingredient entries and
  result entries in all recipes together.
\<close>

theorem complete_graph_counts:
  assumes "distinct (map key (recipes fd))"
  shows "\<exists>g. generateCompleteGraph fd = Inr g
     \<and> length (gr_nodes g)
         = length (recipes fd)
           + card (\<Union>r\<in>set (recipes fd). res_name ` set (results r) \<union> ing_name ` set (ingredients r))
     \<and> length (gr_links g)
         = (\<Sum>r\<leftarrow>recipes fd. length (ingredients r) + length (results r))"
proof -
  define s where "s = fold cg_recipe (recipes fd) graph_empty"
  from fold_cg_recipe[OF graph_empty_ok, of "recipes fd"]
  have ok: "graph_ok s"
    and ids: "gn_id ` set (g_nodes s) = recipe_id ` key ` set (recipes fd)
             \<union> item_id ` (\<Union>r\<in>set (recipes fd). recipe_items r)"
    and links: "length (g_links s)
         = (\<Sum>r\<leftarrow>recipes fd. length (ingredients r) + length (results r))"
    by (simp_all add: s_def graph_empty_def)
  let ?items = "\<Union>r\<in>set (recipes fd). recipe_items r"
  have fin: "finite ?items" by (simp add: recipe_items_def)
  have "length (g_nodes s) = card (gn_id ` set (g_nodes s))"
    using graph_ok_distinct[OF ok] by (metis distinct_card length_map set_map)
  also have "\<dots> = card (recipe_id ` key ` set (recipes fd)) + card (item_id ` ?items)"
    unfolding ids using fin id_inj(3,4) by (intro card_Un_disjoint) auto
  also have "card (recipe_id ` key ` set (recipes fd)) = length (recipes fd)"
    using assms id_inj(2)
    by (metis card_image distinct_card inj_on_subset length_map set_map subset_UNIV)
  also have "card (item_id ` ?items) = card ?items"
    using id_inj(1) by (metis card_image inj_on_subset subset_UNIV)
  finally have nodes: "length (g_nodes s) = length (recipes fd) + card ?items" .
  have "generateCompleteGraph fd
      = Inr \<lparr>gr_nodes = map (\<lambda>node. node\<lparr>gn_index := None\<rparr>) (g_nodes s),
             gr_links = map (\<lambda>link. resolved (g_nodes s) (il_amount link) link) (g_links s)\<rparr>"
    using resolve_links[OF ok, of il_amount]
    by (simp add: generateCompleteGraph_def Let_def s_def graph_empty_def)
  then show ?thesis
    using nodes links by (simp add: recipe_items_def)
qed

text \<open>
  The theorem of C6 at the dataset with the thirds: three recipes and the four items
  \<open>t\<close>, \<open>b\<close>, \<open>c\<close>, \<open>a\<close>, four ingredient entries and three result entries.
\<close>

theorem complete_graph_counts_witness:
  "distinct (map key (recipes thirds_data))
   \<and> (\<exists>g. generateCompleteGraph thirds_data = Inr g
       \<and> length (gr_nodes g) = 7
       \<and> length (gr_links g) = 7)"
proof -
  have d: "distinct (map key (recipes thirds_data))"
    by (simp add: thirds_data_def thirds_recipe_def)
  have items: "(\<Union>r\<in>set (recipes thirds_data).
      res_name ` set (results r) \<union> ing_name ` set (ingredients r)) = {''t'', ''b'', ''c'', ''a''}"
    by (auto simp: thirds_data_def thirds_recipe_def)
  have c: "card {''t'', ''b'', ''c'', ''a''} = 4" by simp
  have n: "length (recipes thirds_data) = 3"
    "(\<Sum>r\<leftarrow>recipes thirds_data. length (ingredients r) + length (results r)) = 7"
    by (simp_all add: thirds_data_def thirds_recipe_def)
  show ?thesis
    using complete_graph_counts[OF d] d unfolding items c n by simp
qed

end
